theory Spec2Isabelle
  imports Complex_Main "HOL-Library.AList"
begin

section \<open>Conventions of the embedding\<close>

text \<open>
  The TypeScript sources are \<^verbatim>\<open>text-rank.ts\<close>, \<^verbatim>\<open>tf-idf.ts\<close>, \<^verbatim>\<open>graph.ts\<close> and
  \<^verbatim>\<open>keyword-extractor.ts\<close>.

  \<^item> A JavaScript \<^verbatim>\<open>number\<close> that holds a score or a weight is a \<^typ>\<open>real\<close>: the
    arithmetic is the exact one, rounding of IEEE doubles is not modelled, and there is
    no NaN and no infinity. A \<^verbatim>\<open>number\<close> that holds a count or a position
    (\<^verbatim>\<open>maxIter\<close>, \<^verbatim>\<open>windowSize\<close>, \<^verbatim>\<open>topN\<close>, a document index) is an \<^typ>\<open>int\<close>;
    a length or a frequency, which the code only ever counts up from zero, is a
    \<^typ>\<open>nat\<close>.
  \<^item> A JavaScript \<^verbatim>\<open>Map\<close> iterates in insertion order, and \<^verbatim>\<open>set\<close> on a key that
    is present keeps the key's position. It is an association list with
    \<^const>\<open>map_of\<close> for \<^verbatim>\<open>get\<close> and \<^const>\<open>AList.update\<close> for \<^verbatim>\<open>set\<close>. The plain
    object that \<^verbatim>\<open>getDocumentScores\<close> fills is the association list of its own
    properties in the order of their creation, written with \<open>Object_set\<close> and
    enumerated with \<open>Object_entries\<close>.
  \<^item> A \<^verbatim>\<open>Set\<close> built from an array iterates in order of first occurrence.
  \<^item> \<^verbatim>\<open>console.warn\<close> and \<^verbatim>\<open>console.error\<close> are the only effects besides the
    mutation of the objects' own fields; a function that may call them returns the list
    of diagnostics it has written next to its value.
\<close>

subsection \<open>The operator \<^verbatim>\<open>||\<close> on an optional number\<close>

text \<open>
  \<^verbatim>\<open>x || d\<close> is \<^verbatim>\<open>d\<close> when \<^verbatim>\<open>x\<close> is falsy. For a value that is a number or
  \<^verbatim>\<open>undefined\<close>, falsy means \<^verbatim>\<open>undefined\<close> or zero.
\<close>

definition falsy_or :: "'a::zero option \<Rightarrow> 'a \<Rightarrow> 'a" where
  "falsy_or x d = (case x of None \<Rightarrow> d | Some v \<Rightarrow> if v = 0 then d else v)"

subsection \<open>\<^verbatim>\<open>new Set(array)\<close> and \<^verbatim>\<open>Array.prototype.slice\<close>\<close>

definition Set_of :: "'a list \<Rightarrow> 'a list" where
  "Set_of xs = fold (\<lambda>x acc. if x \<in> set acc then acc else acc @ [x]) xs []"

text \<open>
  \<^verbatim>\<open>xs.slice(a, b)\<close> for integral arguments: a negative argument counts from the end of
  the array, both are clamped to the array, and the result is empty when the start is
  not before the end.
\<close>

definition slice :: "'a list \<Rightarrow> int \<Rightarrow> int \<Rightarrow> 'a list" where
  "slice xs a b =
     (let n = int (length xs);
          k = (if a < 0 then max (n + a) 0 else min a n);
          f = (if b < 0 then max (n + b) 0 else min b n)
      in take (nat (f - k)) (drop (nat k) xs))"

subsection \<open>Plain objects with number values\<close>

text \<open>
  \<^verbatim>\<open>obj[key] = v\<close> on an object created by \<^verbatim>\<open>{}\<close>, for a number \<open>v\<close>. The key
  \<^verbatim>\<open>__proto__\<close> names the accessor inherited from \<^verbatim>\<open>Object.prototype\<close>, whose setter
  ignores a value that is neither an object nor \<^verbatim>\<open>null\<close>: the assignment creates no
  property. Every other key becomes an own property, or has its value replaced.
\<close>

definition Object_set :: "(string \<times> 'v) list \<Rightarrow> string \<Rightarrow> 'v \<Rightarrow> (string \<times> 'v) list" where
  "Object_set obj key v = (if key = ''__proto__'' then obj else AList.update key v obj)"

text \<open>
  \<^verbatim>\<open>Object.entries(obj)\<close> lists the properties whose key is an array index first, by
  ascending index, and then the other properties in the order of their creation. An array
  index is the decimal numeral, with no leading zero, of an integer below
  \<open>2^32 - 1 = 4294967295\<close>.
\<close>

definition isDigit :: "char \<Rightarrow> bool" where
  "isDigit c = (48 \<le> (of_char c :: nat) \<and> (of_char c :: nat) \<le> 57)"

definition decimalValue :: "string \<Rightarrow> nat" where
  "decimalValue s = foldl (\<lambda>n c. 10 * n + ((of_char c :: nat) - 48)) 0 s"

definition isArrayIndex :: "string \<Rightarrow> bool" where
  "isArrayIndex s =
     (s \<noteq> [] \<and> list_all isDigit s \<and> (if hd s = CHR ''0'' then length s = 1 else True)
      \<and> decimalValue s < 4294967295)"

definition Object_entries :: "(string \<times> 'v) list \<Rightarrow> (string \<times> 'v) list" where
  "Object_entries obj =
     sort_key (\<lambda>e. decimalValue (fst e)) (filter (\<lambda>e. isArrayIndex (fst e)) obj)
     @ filter (\<lambda>e. \<not> isArrayIndex (fst e)) obj"

section \<open>\<^verbatim>\<open>graph.ts\<close>: the class \<^verbatim>\<open>Graph\<close>\<close>

text \<open>The field \<^verbatim>\<open>nodes: Map<T, Map<T, number>>\<close>, from a node to its outgoing edges.\<close>

type_synonym 'a Graph = "('a \<times> ('a \<times> real) list) list"

definition addNode :: "'a Graph \<Rightarrow> 'a \<Rightarrow> 'a Graph" where
  "addNode g node = (if map_of g node = None then AList.update node [] g else g)"

text \<open>
  \<^verbatim>\<open>this.nodes.get(from)!\<close> reads the entry that \<^verbatim>\<open>addNode(from)\<close> has just ensured
  (lemma \<open>addNode_present\<close> below), so \<^const>\<open>the\<close> is applied to \<open>Some\<close> only.
\<close>

definition addEdge :: "'a Graph \<Rightarrow> 'a \<Rightarrow> 'a \<Rightarrow> real \<Rightarrow> 'a Graph" where
  "addEdge g from to weight =
     (let g1 = addNode g from;
          g2 = addNode g1 to;
          adj = the (map_of g2 from);
          currentWeight = falsy_or (map_of adj to) 0
      in AList.update from (AList.update to (currentWeight + weight) adj) g2)"

definition getNodes :: "'a Graph \<Rightarrow> 'a list" where
  "getNodes g = map fst g"

definition getOutNeighbors :: "'a Graph \<Rightarrow> 'a \<Rightarrow> ('a \<times> real) list" where
  "getOutNeighbors g node = (case map_of g node of None \<Rightarrow> [] | Some neighbors \<Rightarrow> neighbors)"

text \<open>
  The body of the loop of \<^verbatim>\<open>getInNeighbors\<close>: \<^verbatim>\<open>neighbors.has(node)\<close> followed by
  \<^verbatim>\<open>neighbors.get(node)!\<close> is one lookup.
\<close>

definition collectIn :: "'a \<Rightarrow> 'a \<times> ('a \<times> real) list \<Rightarrow> ('a \<times> real) list \<Rightarrow> ('a \<times> real) list" where
  "collectIn node entry inNeighbors =
     (case map_of (snd entry) node of
        None \<Rightarrow> inNeighbors
      | Some w \<Rightarrow> AList.update (fst entry) w inNeighbors)"

definition getInNeighbors :: "'a Graph \<Rightarrow> 'a \<Rightarrow> ('a \<times> real) list" where
  "getInNeighbors g node = fold (collectIn node) g []"

definition getTotalOutWeight :: "'a Graph \<Rightarrow> 'a \<Rightarrow> real" where
  "getTotalOutWeight g node = fold (\<lambda>w sum. sum + w) (map snd (getOutNeighbors g node)) 0"

definition clear :: "'a Graph" where
  "clear = []"

section \<open>\<^verbatim>\<open>text-rank.ts\<close>: the class \<^verbatim>\<open>TextRank\<close>\<close>

record TextRankOptions =
  opt_damping :: "real option"
  opt_maxIter :: "int option"
  opt_minDiff :: "real option"
  opt_windowSize :: "int option"

record TextRank =
  damping :: real
  maxIter :: int
  minDiff :: real
  windowSize :: int
  graph :: "string Graph"
  scores :: "(string \<times> real) list"

text \<open>The default argument \<^verbatim>\<open>options = {}\<close>.\<close>

definition no_options :: TextRankOptions where
  "no_options = \<lparr>opt_damping = None, opt_maxIter = None, opt_minDiff = None,
                  opt_windowSize = None\<rparr>"

definition TextRank_new :: "TextRankOptions \<Rightarrow> TextRank" where
  "TextRank_new options =
     \<lparr>damping = falsy_or (opt_damping options) 0.85,
      maxIter = falsy_or (opt_maxIter options) 200,
      minDiff = falsy_or (opt_minDiff options) 0.0001,
      windowSize = falsy_or (opt_windowSize options) 5,
      graph = clear,
      scores = []\<rparr>"

text \<open>
  The body of the loop over the positions in \<^verbatim>\<open>buildGraph\<close>: the words around position
  \<open>i\<close>, and the edges added from \<open>words[i]\<close> to each of them.
\<close>

definition windowSlice :: "int \<Rightarrow> string list \<Rightarrow> nat \<Rightarrow> string list" where
  "windowSlice ws words i =
     (let start = max 0 (int i - ws);
          end = min (int (length words)) (int i + ws + 1)
      in slice words start (int i) @ slice words (int i + 1) end)"

definition addWindowEdges :: "int \<Rightarrow> string list \<Rightarrow> nat \<Rightarrow> string Graph \<Rightarrow> string Graph" where
  "addWindowEdges ws words i g =
     (let word1 = words ! i
      in fold (\<lambda>word2 g'. addEdge g' word1 word2 1) (windowSlice ws words i) g)"

definition buildGraph :: "int \<Rightarrow> string list \<Rightarrow> string Graph" where
  "buildGraph ws words =
     (let g0 = fold (\<lambda>word g. addNode g word) (Set_of words) clear
      in fold (addWindowEdges ws words) [0 ..< length words] g0)"

text \<open>
  The first part of \<^verbatim>\<open>run\<close>: the raw prior of every node together with
  \<^verbatim>\<open>totalWeight\<close>, then the normalisation, then the initial scores. The argument
  \<^verbatim>\<open>initialWeights\<close> is only read with \<^verbatim>\<open>get\<close>, so it is a partial function;
  \<open>None\<close> is the omitted argument.
\<close>

definition defaultInitialWeight :: real where
  "defaultInitialWeight = 1.0"

definition addPrior ::
  "(string \<rightharpoonup> real) \<Rightarrow> string \<Rightarrow> (string \<times> real) list \<times> real \<Rightarrow> (string \<times> real) list \<times> real" where
  "addPrior iw word acc =
     (let weight = falsy_or (iw word) defaultInitialWeight
      in (AList.update word weight (fst acc), snd acc + weight))"

definition rawPriors ::
  "string list \<Rightarrow> (string \<rightharpoonup> real) option \<Rightarrow> (string \<times> real) list \<times> real" where
  "rawPriors uniqueWords initialWeights =
     (case initialWeights of
        Some iw \<Rightarrow> fold (addPrior iw) uniqueWords ([], 0)
      | None \<Rightarrow>
          (fold (\<lambda>word priors. AList.update word defaultInitialWeight priors) uniqueWords [],
           real (length uniqueWords)))"

definition normalizePrior ::
  "real \<Rightarrow> string \<times> real \<Rightarrow> (string \<times> real) list \<Rightarrow> (string \<times> real) list" where
  "normalizePrior totalWeight entry p = AList.update (fst entry) (snd entry / totalWeight) p"

definition normalizePriors :: "(string \<times> real) list \<Rightarrow> real \<Rightarrow> (string \<times> real) list" where
  "normalizePriors priors totalWeight =
     (if totalWeight > 0 then fold (normalizePrior totalWeight) priors priors else priors)"

definition computePriors ::
  "string list \<Rightarrow> (string \<rightharpoonup> real) option \<Rightarrow> (string \<times> real) list" where
  "computePriors uniqueWords initialWeights =
     (let (priors, totalWeight) = rawPriors uniqueWords initialWeights
      in normalizePriors priors totalWeight)"

definition initScores :: "string list \<Rightarrow> (string \<times> real) list \<Rightarrow> (string \<times> real) list" where
  "initScores uniqueWords priors =
     fold (\<lambda>word s. AList.update word (falsy_or (map_of priors word) 0) s) uniqueWords []"

text \<open>The body of the loop over \<^verbatim>\<open>inNeighbors.entries()\<close>.\<close>

definition addInbound ::
  "string Graph \<Rightarrow> (string \<times> real) list \<Rightarrow> string \<times> real \<Rightarrow> real \<Rightarrow> real" where
  "addInbound g old entry acc =
     (let potentialNeighbor = fst entry;
          weight = snd entry;
          neighborTotalOutboundWeight = getTotalOutWeight g potentialNeighbor
      in if neighborTotalOutboundWeight > 0
         then acc + (weight / neighborTotalOutboundWeight)
                      * falsy_or (map_of old potentialNeighbor) 0
         else acc)"

definition inboundWeightSum ::
  "string Graph \<Rightarrow> (string \<times> real) list \<Rightarrow> string \<Rightarrow> real" where
  "inboundWeightSum g old word = fold (addInbound g old) (getInNeighbors g word) 0"

text \<open>
  One pass of the ranking loop: the loop over \<^verbatim>\<open>this.graph.getNodes()\<close>, from the scores
  \<open>old\<close> (\<^verbatim>\<open>this.scores\<close>) to the pair of \<^verbatim>\<open>newScores\<close> and \<^verbatim>\<open>max_diff\<close>;
  \<open>rankNode\<close> is the body of that loop. \<^verbatim>\<open>newScores.get(word)!\<close> reads the value that
  has just been stored.
\<close>

definition rankNode ::
  "real \<Rightarrow> string Graph \<Rightarrow> (string \<times> real) list \<Rightarrow> (string \<times> real) list \<Rightarrow> string
     \<Rightarrow> (string \<times> real) list \<times> real \<Rightarrow> (string \<times> real) list \<times> real" where
  "rankNode d g priors old word acc =
     (let prior = falsy_or (map_of priors word) 0;
          rank = (1 - d) * prior;
          newScores = AList.update word (rank + d * inboundWeightSum g old word) (fst acc)
      in (newScores,
          max (snd acc) \<bar>the (map_of newScores word) - falsy_or (map_of old word) 0\<bar>))"

definition rankPass ::
  "real \<Rightarrow> string Graph \<Rightarrow> (string \<times> real) list \<Rightarrow> (string \<times> real) list
     \<Rightarrow> (string \<times> real) list \<times> real" where
  "rankPass d g priors old = fold (rankNode d g priors old) (getNodes g) ([], 0)"

text \<open>
  The loop \<^verbatim>\<open>for (let iter = 0; iter < this.maxIter; iter++)\<close> with its \<^verbatim>\<open>break\<close>. The
  second component of the result counts the passes that were carried out; the source
  does not keep that number.
\<close>

function iterate :: "TextRank \<Rightarrow> (string \<times> real) list \<Rightarrow> nat \<Rightarrow> TextRank \<times> nat" where
  "iterate tr priors iter =
     (if int iter < maxIter tr
      then (let (newScores, max_diff) = rankPass (damping tr) (graph tr) priors (scores tr);
                tr' = tr\<lparr>scores := newScores\<rparr>
            in if max_diff < minDiff tr then (tr', iter + 1)
               else iterate tr' priors (iter + 1))
      else (tr, iter))"
  by pat_completeness auto
termination
  by (relation "measure (\<lambda>(tr, priors, iter). nat (maxIter tr - int iter))") auto

definition run_counted ::
  "TextRank \<Rightarrow> string list \<Rightarrow> (string \<rightharpoonup> real) option \<Rightarrow> TextRank \<times> nat" where
  "run_counted tr words initialWeights =
     (let tr1 = tr\<lparr>graph := buildGraph (windowSize tr) words\<rparr>;
          uniqueWords = getNodes (graph tr1);
          priors = computePriors uniqueWords initialWeights;
          tr2 = tr1\<lparr>scores := initScores uniqueWords priors\<rparr>
      in iterate tr2 priors 0)"

definition run :: "TextRank \<Rightarrow> string list \<Rightarrow> (string \<rightharpoonup> real) option \<Rightarrow> TextRank" where
  "run tr words initialWeights = fst (run_counted tr words initialWeights)"


section \<open>\<^verbatim>\<open>tf-idf.ts\<close>: the class \<^verbatim>\<open>TfIdf\<close>\<close>

text \<open>
  The two console messages: the warning of the constructor, and the error
  \<^verbatim>\<open>Document with index ${docIndex} not found.\<close>
\<close>

datatype diagnostic = EmptyDocumentsWarning | DocumentNotFound int

record TfIdf =
  documents :: "string list list"
  idfCache :: "(string \<times> real) list"
  docTermCounts :: "nat list"

text \<open>The expression of line 53, \<^verbatim>\<open>Math.log(totalDocs / (freq + 1)) + 1\<close>.\<close>

definition idfValue :: "nat \<Rightarrow> nat \<Rightarrow> real" where
  "idfValue totalDocs freq = ln (real totalDocs / (real freq + 1)) + 1"

text \<open>The first loop of \<^verbatim>\<open>calculateAllIdf\<close>, and its body for one term of one document.\<close>

definition countTerm :: "string \<Rightarrow> (string \<times> nat) list \<Rightarrow> (string \<times> nat) list" where
  "countTerm term df =
     (let count = falsy_or (map_of df term) 0
      in AList.update term (count + 1) df)"

definition docFrequency :: "string list list \<Rightarrow> (string \<times> nat) list" where
  "docFrequency docs =
     fold (\<lambda>doc df. let uniqueTerms = Set_of doc in fold countTerm uniqueTerms df) docs []"

text \<open>The second loop, over \<^verbatim>\<open>docFrequency.entries()\<close>.\<close>

definition cacheIdf :: "nat \<Rightarrow> string \<times> nat \<Rightarrow> (string \<times> real) list \<Rightarrow> (string \<times> real) list" where
  "cacheIdf totalDocs entry cache =
     (let idf = idfValue totalDocs (snd entry)
      in AList.update (fst entry) idf cache)"

definition calculateAllIdf :: "TfIdf \<Rightarrow> TfIdf" where
  "calculateAllIdf m =
     (let totalDocs = length (documents m)
      in m\<lparr>idfCache := fold (cacheIdf totalDocs) (docFrequency (documents m)) (idfCache m)\<rparr>)"

text \<open>The field initialisers, which is all the constructor leaves when it returns early.\<close>

definition TfIdf_init :: TfIdf where
  "TfIdf_init = \<lparr>documents = [], idfCache = [], docTermCounts = []\<rparr>"

text \<open>
  The parameter has the type \<^verbatim>\<open>string[][]\<close>, so of the test
  \<^verbatim>\<open>!documents || documents.length === 0\<close> only the second half can hold.
\<close>

definition TfIdf_new :: "string list list \<Rightarrow> TfIdf \<times> diagnostic list" where
  "TfIdf_new docs =
     (if length docs = 0 then (TfIdf_init, [EmptyDocumentsWarning])
      else (let m1 = TfIdf_init\<lparr>documents := docs\<rparr>;
                m2 = m1\<lparr>docTermCounts :=
                         fold (\<lambda>doc counts. counts @ [length doc]) (documents m1)
                              (docTermCounts m1)\<rparr>
            in (calculateAllIdf m2, [])))"

definition calculateTf :: "string \<Rightarrow> string list \<Rightarrow> real" where
  "calculateTf term document =
     (let totalTermsInDoc = length document
      in if totalTermsInDoc = 0 then 0
         else (let termCount = length (filter (\<lambda>t. t = term) document)
               in real termCount / real totalTermsInDoc))"

text \<open>
  \<^verbatim>\<open>this.documents[docIndex]\<close> is \<^verbatim>\<open>undefined\<close> outside the array; an array, even an
  empty one, is truthy.
\<close>

definition document_at :: "TfIdf \<Rightarrow> int \<Rightarrow> string list option" where
  "document_at m docIndex =
     (if 0 \<le> docIndex \<and> docIndex < int (length (documents m))
      then Some (documents m ! nat docIndex) else None)"

definition getTfIdf :: "TfIdf \<Rightarrow> string \<Rightarrow> int \<Rightarrow> real \<times> diagnostic list" where
  "getTfIdf m term docIndex =
     (case document_at m docIndex of
        None \<Rightarrow> (0, [DocumentNotFound docIndex])
      | Some document \<Rightarrow>
          (let tf = calculateTf term document;
               idf = falsy_or (map_of (idfCache m) term) 0
           in (tf * idf, [])))"

text \<open>
  \<^verbatim>\<open>getDocumentScores\<close> fills the plain object \<^verbatim>\<open>scores\<close>; \<open>scoreTerm\<close> is the
  body of its loop, the assignment \<^verbatim>\<open>scores[term] = this.getTfIdf(term, docIndex)\<close>.
  The result is the object, as the list of its own properties.
\<close>

definition scoreTerm ::
  "TfIdf \<Rightarrow> int \<Rightarrow> string \<Rightarrow> (string \<times> real) list \<times> diagnostic list
     \<Rightarrow> (string \<times> real) list \<times> diagnostic list" where
  "scoreTerm m docIndex term acc =
     (let r = getTfIdf m term docIndex
      in (Object_set (fst acc) term (fst r), snd acc @ snd r))"

definition getDocumentScores :: "TfIdf \<Rightarrow> int \<Rightarrow> (string \<times> real) list \<times> diagnostic list" where
  "getDocumentScores m docIndex =
     (case document_at m docIndex of
        None \<Rightarrow> ([], [DocumentNotFound docIndex])
      | Some document \<Rightarrow> fold (scoreTerm m docIndex) (Set_of document) ([], []))"

definition getTopTerms :: "TfIdf \<Rightarrow> int \<Rightarrow> int \<Rightarrow> (string \<times> real) list \<times> diagnostic list" where
  "getTopTerms m docIndex topN =
     (let (scores, log) = getDocumentScores m docIndex;
          sortedTerms = sort_key (\<lambda>(term, score). - score) (Object_entries scores)
      in (slice sortedTerms 0 topN, log))"

definition getAllScores :: "TfIdf \<Rightarrow> (string \<times> real) list list \<times> diagnostic list" where
  "getAllScores m =
     fold (\<lambda>index acc.
             let r = getDocumentScores m (int index)
             in (fst acc @ [fst r], snd acc @ snd r))
          [0 ..< length (documents m)] ([], [])"

section \<open>\<^verbatim>\<open>keyword-extractor.ts\<close>: the class \<^verbatim>\<open>KeywordExtractor\<close>\<close>





record WordWithScore =
  word :: string
  score :: real







section \<open>Reading the graph\<close>

text \<open>
  The weight stored for the edge from \<open>u\<close> to \<open>v\<close>, read the way the engine reads the
  graph, \<^verbatim>\<open>getOutNeighbors(u).get(v)\<close>; \<open>None\<close> when there is no such edge.
\<close>

definition edgeWeight :: "'a Graph \<Rightarrow> 'a \<Rightarrow> 'a \<Rightarrow> real option" where
  "edgeWeight g u v = map_of (getOutNeighbors g u) v"

section \<open>Association lists as insertion-ordered maps\<close>


lemma Set_of_fold:
  "distinct acc \<Longrightarrow>
   distinct (fold (\<lambda>x acc. if x \<in> set acc then acc else acc @ [x]) xs acc) \<and>
   set (fold (\<lambda>x acc. if x \<in> set acc then acc else acc @ [x]) xs acc) = set acc \<union> set xs"
  by (induction xs arbitrary: acc) auto

lemma set_Set_of [simp]: "set (Set_of xs) = set xs"
  unfolding Set_of_def using Set_of_fold [of "[]" xs] by simp

lemma distinct_Set_of [simp]: "distinct (Set_of xs)"
  unfolding Set_of_def using Set_of_fold [of "[]" xs] by simp

section \<open>The loop of \<^verbatim>\<open>run\<close> leaves the configuration and the graph alone\<close>

declare iterate.simps [simp del]

lemma iterate_fields:
  "iterate tr priors iter = (tr', k) \<Longrightarrow>
     damping tr' = damping tr \<and> maxIter tr' = maxIter tr \<and> minDiff tr' = minDiff tr
     \<and> windowSize tr' = windowSize tr \<and> graph tr' = graph tr"
proof (induction tr priors iter arbitrary: tr' k rule: iterate.induct)
  case (1 tr priors iter)
  show ?case
  proof (cases "int iter < maxIter tr")
    case False
    with "1.prems" show ?thesis by (simp add: iterate.simps [of tr])
  next
    case True
    obtain ns md where r: "rankPass (damping tr) (graph tr) priors (scores tr) = (ns, md)"
      by (cases "rankPass (damping tr) (graph tr) priors (scores tr)")
    show ?thesis
    proof (cases "md < minDiff tr")
      case True
      with \<open>int iter < maxIter tr\<close> r "1.prems" show ?thesis
        by (auto simp: iterate.simps [of tr])
    next
      case False
      with \<open>int iter < maxIter tr\<close> r "1.prems"
      have "iterate (tr\<lparr>scores := ns\<rparr>) priors (iter + 1) = (tr', k)"
        by (simp add: iterate.simps [of tr])
      from "1.IH" [OF True refl r [symmetric] refl False this] show ?thesis by simp
    qed
  qed
qed

lemma graph_run: "graph (run tr ws iw) = buildGraph (windowSize tr) ws"
proof -
  obtain tr' k where r: "run_counted tr ws iw = (tr', k)" by (cases "run_counted tr ws iw")
  then show ?thesis
    unfolding run_def run_counted_def Let_def
    by (auto dest!: iterate_fields)
qed

section \<open>The constructor of \<^verbatim>\<open>TextRank\<close>\<close>

lemma buildGraph_ab_5:
  "buildGraph 5 [''a'', ''b''] = [(''a'', [(''b'', 1)]), (''b'', [(''a'', 1)])]"
  by code_simp

lemma buildGraph_ab_0: "buildGraph 0 [''a'', ''b''] = [(''a'', []), (''b'', [])]"
  by code_simp

text \<open>
  Claim C10. The constructor joins each supplied option with its default by \<^verbatim>\<open>||\<close>:
  every field is the supplied value when one is supplied and is not zero, and the default
  otherwise, so a supplied zero is replaced by the default. \<open>damping = 0\<close>,
  \<open>maxIter = 0\<close>, \<open>minDiff = 0\<close> and \<open>windowSize = 0\<close> give \<open>0.85\<close>, \<open>200\<close>,
  \<open>0.0001\<close> and \<open>5\<close>, while the options \<open>0.5\<close>, \<open>10\<close>, \<open>0.01\<close> and \<open>2\<close> are kept.
  Whatever the other options are, the engine built with one of them set to zero is the
  engine built with that option left out, so it behaves as the default and not as zero:
  with \<open>windowSize = 0\<close> the run on \<open>a b\<close> builds the graph of window 5, which joins
  \<open>a\<close> and \<open>b\<close>, where a window of zero would leave the two nodes without edges.
\<close>

theorem TextRank_new_falsy_defaults:
  "TextRank_new \<lparr>opt_damping = Some 0, opt_maxIter = Some 0, opt_minDiff = Some 0,
                  opt_windowSize = Some 0\<rparr>
     = \<lparr>damping = 0.85, maxIter = 200, minDiff = 0.0001, windowSize = 5,
        graph = [], scores = []\<rparr>
   \<and> TextRank_new (opts\<lparr>opt_damping := Some 0\<rparr>) = TextRank_new (opts\<lparr>opt_damping := None\<rparr>)
   \<and> TextRank_new (opts\<lparr>opt_maxIter := Some 0\<rparr>) = TextRank_new (opts\<lparr>opt_maxIter := None\<rparr>)
   \<and> TextRank_new (opts\<lparr>opt_minDiff := Some 0\<rparr>) = TextRank_new (opts\<lparr>opt_minDiff := None\<rparr>)
   \<and> TextRank_new (opts\<lparr>opt_windowSize := Some 0\<rparr>)
       = TextRank_new (opts\<lparr>opt_windowSize := None\<rparr>)
   \<and> damping (TextRank_new (opts\<lparr>opt_damping := Some 0\<rparr>)) = 0.85
   \<and> maxIter (TextRank_new (opts\<lparr>opt_maxIter := Some 0\<rparr>)) = 200
   \<and> minDiff (TextRank_new (opts\<lparr>opt_minDiff := Some 0\<rparr>)) = 0.0001
   \<and> windowSize (TextRank_new (opts\<lparr>opt_windowSize := Some 0\<rparr>)) = 5
   \<and> graph (run (TextRank_new (opts\<lparr>opt_windowSize := Some 0\<rparr>)) [''a'', ''b''] iw)
       = [(''a'', [(''b'', 1)]), (''b'', [(''a'', 1)])]
   \<and> buildGraph 0 [''a'', ''b''] = [(''a'', []), (''b'', [])]
   \<and> TextRank_new options
       = \<lparr>damping = (case opt_damping options of
                       None \<Rightarrow> 0.85 | Some v \<Rightarrow> if v = 0 then 0.85 else v),
          maxIter = (case opt_maxIter options of
                       None \<Rightarrow> 200 | Some v \<Rightarrow> if v = 0 then 200 else v),
          minDiff = (case opt_minDiff options of
                       None \<Rightarrow> 0.0001 | Some v \<Rightarrow> if v = 0 then 0.0001 else v),
          windowSize = (case opt_windowSize options of
                          None \<Rightarrow> 5 | Some v \<Rightarrow> if v = 0 then 5 else v),
          graph = [], scores = []\<rparr>
   \<and> TextRank_new \<lparr>opt_damping = Some 0.5, opt_maxIter = Some 10, opt_minDiff = Some 0.01,
                     opt_windowSize = Some 2\<rparr>
       = \<lparr>damping = 0.5, maxIter = 10, minDiff = 0.01, windowSize = 2,
          graph = [], scores = []\<rparr>
   \<and> TextRank_new no_options
       = \<lparr>damping = 0.85, maxIter = 200, minDiff = 0.0001, windowSize = 5,
          graph = [], scores = []\<rparr>"
proof -
  have w: "windowSize (TextRank_new (opts\<lparr>opt_windowSize := Some 0\<rparr>)) = 5"
    by (simp add: TextRank_new_def falsy_or_def)
  have g: "graph (run (TextRank_new (opts\<lparr>opt_windowSize := Some 0\<rparr>)) [''a'', ''b''] iw)
       = [(''a'', [(''b'', 1)]), (''b'', [(''a'', 1)])]"
    by (simp only: graph_run w buildGraph_ab_5)
  have m: "TextRank_new options
       = \<lparr>damping = (case opt_damping options of
                       None \<Rightarrow> 0.85 | Some v \<Rightarrow> if v = 0 then 0.85 else v),
          maxIter = (case opt_maxIter options of
                       None \<Rightarrow> 200 | Some v \<Rightarrow> if v = 0 then 200 else v),
          minDiff = (case opt_minDiff options of
                       None \<Rightarrow> 0.0001 | Some v \<Rightarrow> if v = 0 then 0.0001 else v),
          windowSize = (case opt_windowSize options of
                          None \<Rightarrow> 5 | Some v \<Rightarrow> if v = 0 then 5 else v),
          graph = [], scores = []\<rparr>"
    by (simp add: TextRank_new_def falsy_or_def clear_def split: option.splits)
  have k: "TextRank_new \<lparr>opt_damping = Some 0.5, opt_maxIter = Some 10, opt_minDiff = Some 0.01,
                     opt_windowSize = Some 2\<rparr>
       = \<lparr>damping = 0.5, maxIter = 10, minDiff = 0.01, windowSize = 2,
          graph = [], scores = []\<rparr>"
    by (simp add: TextRank_new_def falsy_or_def clear_def)
  have z: "TextRank_new \<lparr>opt_damping = Some 0, opt_maxIter = Some 0, opt_minDiff = Some 0,
                  opt_windowSize = Some 0\<rparr>
     = \<lparr>damping = 0.85, maxIter = 200, minDiff = 0.0001, windowSize = 5,
        graph = [], scores = []\<rparr>
   \<and> TextRank_new (opts\<lparr>opt_damping := Some 0\<rparr>) = TextRank_new (opts\<lparr>opt_damping := None\<rparr>)
   \<and> TextRank_new (opts\<lparr>opt_maxIter := Some 0\<rparr>) = TextRank_new (opts\<lparr>opt_maxIter := None\<rparr>)
   \<and> TextRank_new (opts\<lparr>opt_minDiff := Some 0\<rparr>) = TextRank_new (opts\<lparr>opt_minDiff := None\<rparr>)
   \<and> TextRank_new (opts\<lparr>opt_windowSize := Some 0\<rparr>)
       = TextRank_new (opts\<lparr>opt_windowSize := None\<rparr>)
   \<and> damping (TextRank_new (opts\<lparr>opt_damping := Some 0\<rparr>)) = 0.85
   \<and> maxIter (TextRank_new (opts\<lparr>opt_maxIter := Some 0\<rparr>)) = 200
   \<and> minDiff (TextRank_new (opts\<lparr>opt_minDiff := Some 0\<rparr>)) = 0.0001
   \<and> windowSize (TextRank_new (opts\<lparr>opt_windowSize := Some 0\<rparr>)) = 5
   \<and> TextRank_new no_options
       = \<lparr>damping = 0.85, maxIter = 200, minDiff = 0.0001, windowSize = 5,
          graph = [], scores = []\<rparr>"
    by (simp add: TextRank_new_def falsy_or_def clear_def no_options_def)
  from z g buildGraph_ab_0 m k show ?thesis
    by (elim conjE) (intro conjI; assumption)
qed

section \<open>The scorer degrades instead of throwing\<close>

lemma documents_calculateAllIdf [simp]: "documents (calculateAllIdf m) = documents m"
  by (simp add: calculateAllIdf_def Let_def)

lemma documents_TfIdf_new [simp]: "documents (fst (TfIdf_new docs)) = docs"
  by (simp add: TfIdf_new_def TfIdf_init_def Let_def)

lemma document_at_valid:
  "0 \<le> i \<Longrightarrow> i < int (length (documents m)) \<Longrightarrow>
   document_at m i = Some (documents m ! nat i)"
  by (simp add: document_at_def)

lemma slice_Nil [simp]: "slice [] a b = []"
  by (simp add: slice_def Let_def)

text \<open>
  Claim C7. No function of the scorer has a failing branch: the only read that could
  fail, \<^verbatim>\<open>this.documents[docIndex]\<close>, is followed by the test \<^verbatim>\<open>!document\<close>.
  The constructor on the empty corpus writes its warning and leaves the empty scorer, on
  which \<^verbatim>\<open>getTfIdf\<close> returns 0 and \<^verbatim>\<open>getDocumentScores\<close>, \<^verbatim>\<open>getTopTerms\<close> and
  \<^verbatim>\<open>getAllScores\<close> return empty collections. On any scorer, \<^verbatim>\<open>getDocumentScores\<close> at an
  index outside the corpus returns the empty mapping and writes the error message.
\<close>

theorem TfIdf_degrades:
  "TfIdf_new [] = (\<lparr>documents = [], idfCache = [], docTermCounts = []\<rparr>, [EmptyDocumentsWarning])
   \<and> getTfIdf (fst (TfIdf_new [])) t i = (0, [DocumentNotFound i])
   \<and> getDocumentScores (fst (TfIdf_new [])) i = ([], [DocumentNotFound i])
   \<and> getTopTerms (fst (TfIdf_new [])) i n = ([], [DocumentNotFound i])
   \<and> getAllScores (fst (TfIdf_new [])) = ([], [])
   \<and> (\<not> (0 \<le> i \<and> i < int (length (documents m)))
        \<longrightarrow> getDocumentScores m i = ([], [DocumentNotFound i]))"
proof -
  have e: "TfIdf_new [] = (TfIdf_init, [EmptyDocumentsWarning])"
    by (simp add: TfIdf_new_def)
  have d: "document_at TfIdf_init i = None"
    by (simp add: document_at_def TfIdf_init_def)
  have 1: "getTfIdf TfIdf_init t i = (0, [DocumentNotFound i])"
    by (simp add: getTfIdf_def d)
  have 2: "getDocumentScores TfIdf_init i = ([], [DocumentNotFound i])"
    by (simp add: getDocumentScores_def d)
  have 3: "getTopTerms TfIdf_init i n = ([], [DocumentNotFound i])"
    by (simp add: getTopTerms_def 2 Object_entries_def)
  have 4: "getAllScores TfIdf_init = ([], [])"
    by (simp add: getAllScores_def TfIdf_init_def)
  have 5: "\<not> (0 \<le> i \<and> i < int (length (documents m)))
        \<longrightarrow> getDocumentScores m i = ([], [DocumentNotFound i])"
    by (simp add: getDocumentScores_def document_at_def)
  show ?thesis
    unfolding e fst_conv using 1 2 3 4 5 by (simp add: TfIdf_init_def)
qed

theorem TfIdf_degrades_witness:
  "\<not> (0 \<le> (1::int) \<and> (1::int) < int (length (documents (fst (TfIdf_new [[''cat'']])))))
   \<and> getDocumentScores (fst (TfIdf_new [[''cat'']])) 1 = ([], [DocumentNotFound 1])"
  using TfIdf_degrades [of _ 1 _ "fst (TfIdf_new [[''cat'']])"] by simp

section \<open>Folds that fill an association list\<close>

lemma fold_update_map_of:
  "map_of (fold (\<lambda>x al. AList.update x (f x) al) xs al) t
     = (if t \<in> set xs then Some (f t) else map_of al t)"
  by (induction xs arbitrary: al) (auto simp: AList.update_conv')

lemma fold_update_keys_gen:
  "distinct xs \<Longrightarrow> set xs \<inter> fst ` set al = {} \<Longrightarrow>
   map fst (fold (\<lambda>x al. AList.update x (f x) al) xs al) = map fst al @ xs"
proof (induction xs arbitrary: al)
  case Nil
  then show ?case by simp
next
  case (Cons a xs)
  from Cons.prems have k: "map fst (AList.update a (f a) al) = map fst al @ [a]"
    by (simp add: AList.update_keys image_iff)
  from Cons.prems have "set xs \<inter> fst ` set (AList.update a (f a) al) = {}"
    by (auto simp: AList.dom_update)
  with Cons.prems have
    "map fst (fold (\<lambda>x al. AList.update x (f x) al) xs (AList.update a (f a) al))
       = map fst (AList.update a (f a) al) @ xs"
    by (intro Cons.IH) simp_all
  with k show ?case by simp
qed

lemma fold_update_keys:
  "distinct xs \<Longrightarrow> map fst (fold (\<lambda>x al. AList.update x (f x) al) xs []) = xs"
  using fold_update_keys_gen [of xs "[]" f] by simp

section \<open>Document frequencies and the IDF cache\<close>

lemma countTerm_map_of:
  "map_of (countTerm term df) t
     = (if t = term then Some (falsy_or (map_of df term) 0 + 1) else map_of df t)"
  by (simp add: countTerm_def Let_def AList.update_conv')

lemma countTerm_distinct: "distinct (map fst df) \<Longrightarrow> distinct (map fst (countTerm term df))"
  by (simp add: countTerm_def Let_def AList.distinct_update)

lemma fold_countTerm_map_of:
  "distinct ts \<Longrightarrow>
   map_of (fold countTerm ts df) t
     = (if t \<in> set ts then Some (falsy_or (map_of df t) 0 + 1) else map_of df t)"
  by (induction ts arbitrary: df) (auto simp: countTerm_map_of)

lemma fold_countTerm_distinct:
  "distinct (map fst df) \<Longrightarrow> distinct (map fst (fold countTerm ts df))"
  by (induction ts arbitrary: df) (auto simp: countTerm_distinct)

lemma docFrequency_fold_map_of:
  "map_of (fold (\<lambda>doc df. let uniqueTerms = Set_of doc in fold countTerm uniqueTerms df) docs df0) t
     = (if length (filter (\<lambda>d. t \<in> set d) docs) = 0 then map_of df0 t
        else Some (falsy_or (map_of df0 t) 0 + length (filter (\<lambda>d. t \<in> set d) docs)))"
proof (induction docs arbitrary: df0)
  case Nil
  then show ?case by simp
next
  case (Cons doc docs)
  have s: "map_of (fold countTerm (Set_of doc) df0) t
     = (if t \<in> set doc then Some (falsy_or (map_of df0 t) 0 + 1) else map_of df0 t)"
    by (simp add: fold_countTerm_map_of)
  show ?case
    unfolding fold_simps Let_def Cons.IH [unfolded Let_def] s
    by (simp add: falsy_or_def)
qed

lemma docFrequency_fold_distinct:
  "distinct (map fst df0) \<Longrightarrow>
   distinct (map fst (fold (\<lambda>doc df. let uniqueTerms = Set_of doc
                                       in fold countTerm uniqueTerms df) docs df0))"
proof (induction docs arbitrary: df0)
  case Nil
  then show ?case by simp
next
  case (Cons doc docs)
  from Cons.prems have "distinct (map fst (fold countTerm (Set_of doc) df0))"
    by (rule fold_countTerm_distinct)
  from Cons.IH [OF this] show ?case by (simp add: Let_def)
qed

lemma map_of_docFrequency:
  "map_of (docFrequency docs) t
     = (if length (filter (\<lambda>d. t \<in> set d) docs) = 0 then None
        else Some (length (filter (\<lambda>d. t \<in> set d) docs)))"
  unfolding docFrequency_def docFrequency_fold_map_of by (simp add: falsy_or_def)

lemma distinct_docFrequency: "distinct (map fst (docFrequency docs))"
  unfolding docFrequency_def by (rule docFrequency_fold_distinct) simp

lemma fold_cacheIdf_map_of:
  "distinct (map fst es) \<Longrightarrow>
   map_of (fold (cacheIdf n) es c) t
     = (case map_of es t of Some v \<Rightarrow> Some (idfValue n v) | None \<Rightarrow> map_of c t)"
proof (induction es arbitrary: c)
  case Nil
  then show ?case by simp
next
  case (Cons e es)
  obtain k v where e: "e = (k, v)" by (cases e)
  from Cons.prems e have "map_of es k = None"
    by (simp add: map_of_eq_None_iff)
  with Cons e show ?case
    by (auto simp: cacheIdf_def AList.update_conv' split: option.splits)
qed

lemma idfCache_TfIdf_new:
  "docs \<noteq> [] \<Longrightarrow>
   idfCache (fst (TfIdf_new docs)) = fold (cacheIdf (length docs)) (docFrequency docs) []"
  by (simp add: TfIdf_new_def TfIdf_init_def calculateAllIdf_def Let_def)

lemma map_of_idfCache:
  "docs \<noteq> [] \<Longrightarrow>
   map_of (idfCache (fst (TfIdf_new docs))) t
     = (if length (filter (\<lambda>d. t \<in> set d) docs) = 0 then None
        else Some (idfValue (length docs) (length (filter (\<lambda>d. t \<in> set d) docs))))"
  by (simp add: idfCache_TfIdf_new fold_cacheIdf_map_of distinct_docFrequency map_of_docFrequency)

lemma filter_empty_iff_unseen:
  "(length (filter (\<lambda>d. t \<in> set d) docs) = 0) = (t \<notin> \<Union> (set ` set docs))"
  by (auto simp: filter_empty_conv)

subsection \<open>The value of \<open>ln (2/3) + 1\<close>\<close>

lemma exp_upper_4054: "exp (0.4054::real) < 1.5"
proof -
  obtain t :: real where t: "\<bar>t\<bar> \<le> \<bar>0.4054::real\<bar>"
    and e: "exp (0.4054::real) = (\<Sum>m<6. (0.4054 ^ m) / fact m) + (exp t / fact 6) * 0.4054 ^ 6"
    using Maclaurin_exp_le [of "0.4054::real" 6] by blast
  have "t \<le> 1" using t by simp
  then have "exp t \<le> exp 1" by simp
  also have "\<dots> \<le> 3" by (rule exp_le)
  finally have t3: "exp t \<le> 3" .
  have "(exp t / fact 6) * 0.4054 ^ 6 \<le> (3 / fact 6) * (0.4054 ^ 6 :: real)"
    by (intro mult_right_mono divide_right_mono t3) simp_all
  with e have "exp (0.4054::real) \<le> (\<Sum>m<6. (0.4054 ^ m) / fact m) + (3 / fact 6) * 0.4054 ^ 6"
    by simp
  also have "\<dots> < 1.5"
    by (simp add: lessThan_nat_numeral lessThan_Suc fact_numeral eval_nat_numeral)
  finally show ?thesis .
qed

lemma exp_lower_4056: "(1.5::real) < exp 0.4056"
proof -
  obtain t :: real where 
    e: "exp (0.4056::real) = (\<Sum>m<6. (0.4056 ^ m) / fact m) + (exp t / fact 6) * 0.4056 ^ 6"
    using Maclaurin_exp_le [of "0.4056::real" 6] by blast
  have "0 \<le> (exp t / fact 6) * (0.4056 ^ 6 :: real)"
    by (intro mult_nonneg_nonneg divide_nonneg_nonneg) simp_all
  with e have "(\<Sum>m<6. (0.4056 ^ m) / fact m) \<le> exp (0.4056::real)" by simp
  moreover have "(1.5::real) < (\<Sum>m<6. (0.4056 ^ m) / fact m)"
    by (simp add: lessThan_nat_numeral lessThan_Suc fact_numeral eval_nat_numeral)
  ultimately show ?thesis by simp
qed

lemma ln_three_halves_bounds: "(0.4054::real) < ln (3/2) \<and> ln (3/2) < (0.4056::real)"
proof -
  have "exp (0.4054::real) < exp (ln (3/2))" using exp_upper_4054 by simp
  moreover have "exp (ln (3/2)) < exp (0.4056::real)" using exp_lower_4056 by simp
  ultimately show ?thesis by (simp only: exp_less_cancel_iff)
qed

lemma idf_dog_approx: "\<bar>ln (2/3) + 1 - 0.5945\<bar> < (0.0001::real)"
proof -
  have "ln (2/3 :: real) = - ln (3/2)"
    by (simp add: ln_div)
  with ln_three_halves_bounds show ?thesis by simp argo
qed


subsection \<open>Term frequency, monotonicity and the example corpus\<close>

lemma calculateTf_eq:
  "calculateTf t doc = (if doc = [] then 0 else real (count_list doc t) / real (length doc))"
proof -
  have "length (filter (\<lambda>x. x = t) doc) = count_list doc t"
    by (induction doc) auto
  then show ?thesis by (simp add: calculateTf_def Let_def)
qed

lemma idfValue_antimono: "df1 \<le> df2 \<Longrightarrow> idfValue N df2 \<le> idfValue N df1"
proof (cases "N = 0")
  case True
  then show ?thesis by (simp add: idfValue_def)
next
  case False
  assume "df1 \<le> df2"
  then have "real N / (real df2 + 1) \<le> real N / (real df1 + 1)"
    by (intro divide_left_mono) (simp_all add: add_pos_nonneg)
  moreover have "0 < real N / (real df2 + 1)"
    using False by (simp add: add_pos_nonneg)
  ultimately have "ln (real N / (real df2 + 1)) \<le> ln (real N / (real df1 + 1))"
    by (rule ln_mono)
  then show ?thesis by (simp add: idfValue_def)
qed

lemma docFrequency_scenario:
  "docFrequency [[''cat'', ''dog'', ''cat''], [''dog'', ''bird'']]
     = [(''cat'', 1), (''dog'', 2), (''bird'', 1)]"
  by code_simp

lemma idfCache_scenario:
  "idfCache (fst (TfIdf_new [[''cat'', ''dog'', ''cat''], [''dog'', ''bird'']]))
     = [(''cat'', 1), (''dog'', ln (2/3) + 1), (''bird'', 1)]"
  by (simp add: idfCache_TfIdf_new docFrequency_scenario cacheIdf_def idfValue_def)

section \<open>The claims about the scorer\<close>

text \<open>
  Claim C3. For a corpus of \<open>N\<close> documents and a term \<open>t\<close> that occurs in at least one of
  them, the cached IDF value is \<open>ln (N / (df + 1)) + 1\<close>, where \<open>df\<close> is the number of
  documents that contain \<open>t\<close>. For the corpus \<open>[[cat, dog, cat], [dog, bird]]\<close> the cache
  holds 1 for \<open>cat\<close>, \<open>ln (2/3) + 1\<close> for \<open>dog\<close>, which is within \<open>0.0001\<close> of \<open>0.5945\<close>,
  and 1 for \<open>bird\<close>.
\<close>

theorem idfCache_formula:
  assumes "t \<in> \<Union> (set ` set docs)"
  shows "map_of (idfCache (fst (TfIdf_new docs))) t
           = Some (ln (real (length docs) / (real (length (filter (\<lambda>d. t \<in> set d) docs)) + 1)) + 1)
         \<and> idfCache (fst (TfIdf_new [[''cat'', ''dog'', ''cat''], [''dog'', ''bird'']]))
             = [(''cat'', 1), (''dog'', ln (2/3) + 1), (''bird'', 1)]
         \<and> \<bar>ln (2/3) + 1 - 0.5945\<bar> < (0.0001::real)"
proof -
  from assms have ne: "docs \<noteq> []" by auto
  from assms have "length (filter (\<lambda>d. t \<in> set d) docs) \<noteq> 0"
    by (simp only: filter_empty_iff_unseen) simp
  with ne have "map_of (idfCache (fst (TfIdf_new docs))) t
           = Some (idfValue (length docs) (length (filter (\<lambda>d. t \<in> set d) docs)))"
    by (simp add: map_of_idfCache)
  then show ?thesis
    using idfCache_scenario idf_dog_approx by (simp only: idfValue_def)
qed

theorem idfCache_formula_witness:
  "''dog'' \<in> \<Union> (set ` set [[''cat'', ''dog'', ''cat''], [''dog'', ''bird'']])
   \<and> map_of (idfCache (fst (TfIdf_new [[''cat'', ''dog'', ''cat''], [''dog'', ''bird'']]))) ''dog''
       = Some (ln (2 / (2 + 1)) + 1)"
proof -
  have h: "''dog'' \<in> \<Union> (set ` set [[''cat'', ''dog'', ''cat''], [''dog'', ''bird'']])"
    by simp
  from idfCache_formula [OF h] h show ?thesis by simp
qed

text \<open>
  Claim C9. For every corpus size \<open>N\<close> the IDF value does not increase when the document
  frequency increases: for two terms of the corpus with \<open>df t1 \<le> df t2\<close>, the value of
  the formula at \<open>df t2\<close> is at most the one at \<open>df t1\<close>, for every \<open>N\<close>, and so are the
  values cached for the two terms.
\<close>

theorem idf_antimono:
  assumes "t1 \<in> \<Union> (set ` set docs)" and "t2 \<in> \<Union> (set ` set docs)"
    and "length (filter (\<lambda>d. t1 \<in> set d) docs) \<le> length (filter (\<lambda>d. t2 \<in> set d) docs)"
  shows "idfValue N (length (filter (\<lambda>d. t2 \<in> set d) docs))
           \<le> idfValue N (length (filter (\<lambda>d. t1 \<in> set d) docs))
         \<and> (\<exists>v1 v2. map_of (idfCache (fst (TfIdf_new docs))) t1 = Some v1
                  \<and> map_of (idfCache (fst (TfIdf_new docs))) t2 = Some v2
                  \<and> v2 \<le> v1)"
proof -
  from assms have ne: "docs \<noteq> []" by auto
  from assms(1) have 1: "length (filter (\<lambda>d. t1 \<in> set d) docs) \<noteq> 0"
    by (simp only: filter_empty_iff_unseen) simp
  from assms(2) have 2: "length (filter (\<lambda>d. t2 \<in> set d) docs) \<noteq> 0"
    by (simp only: filter_empty_iff_unseen) simp
  from ne 1 have c1: "map_of (idfCache (fst (TfIdf_new docs))) t1
           = Some (idfValue (length docs) (length (filter (\<lambda>d. t1 \<in> set d) docs)))"
    by (simp add: map_of_idfCache)
  from ne 2 have c2: "map_of (idfCache (fst (TfIdf_new docs))) t2
           = Some (idfValue (length docs) (length (filter (\<lambda>d. t2 \<in> set d) docs)))"
    by (simp add: map_of_idfCache)
  from assms(3) show ?thesis
    unfolding c1 c2 by (simp add: idfValue_antimono)
qed

theorem idf_antimono_witness:
  "''cat'' \<in> \<Union> (set ` set [[''cat'', ''dog'', ''cat''], [''dog'', ''bird'']])
   \<and> ''dog'' \<in> \<Union> (set ` set [[''cat'', ''dog'', ''cat''], [''dog'', ''bird'']])
   \<and> length (filter (\<lambda>d. ''cat'' \<in> set d) [[''cat'', ''dog'', ''cat''], [''dog'', ''bird'']])
       \<le> length (filter (\<lambda>d. ''dog'' \<in> set d) [[''cat'', ''dog'', ''cat''], [''dog'', ''bird'']])
   \<and> idfValue 2 2 \<le> idfValue 2 1"
proof -
  have 1: "''cat'' \<in> \<Union> (set ` set [[''cat'', ''dog'', ''cat''], [''dog'', ''bird'']])"
    by simp
  have 2: "''dog'' \<in> \<Union> (set ` set [[''cat'', ''dog'', ''cat''], [''dog'', ''bird'']])"
    by simp
  have 3: "length (filter (\<lambda>d. ''cat'' \<in> set d) [[''cat'', ''dog'', ''cat''], [''dog'', ''bird'']])
       \<le> length (filter (\<lambda>d. ''dog'' \<in> set d) [[''cat'', ''dog'', ''cat''], [''dog'', ''bird'']])"
    by simp
  from idf_antimono [OF 1 2 3, of 2] have "idfValue 2 2 \<le> idfValue 2 1"
    by (simp add: numeral_2_eq_2)
  with 1 2 3 show ?thesis by blast
qed

text \<open>
  Claim C4. For a term \<open>t\<close> and a valid document index \<open>d\<close>, \<^verbatim>\<open>getTfIdf\<close> returns
  \<open>tf * idf\<close> and writes no diagnostic, where \<open>tf\<close> is the number of occurrences of \<open>t\<close>
  in the document divided by the document's length (0 for the empty document), and
  \<open>idf\<close> is the cached value, 0 for a term that occurs nowhere in the corpus; such a
  term scores 0.
\<close>

theorem getTfIdf_formula:
  assumes "0 \<le> d" and "d < int (length docs)"
  shows "getTfIdf (fst (TfIdf_new docs)) t d
           = ((if docs ! nat d = [] then 0
               else real (count_list (docs ! nat d) t) / real (length (docs ! nat d)))
              * (if t \<in> \<Union> (set ` set docs)
                 then ln (real (length docs)
                          / (real (length (filter (\<lambda>d. t \<in> set d) docs)) + 1)) + 1
                 else 0), [])
         \<and> fst (getTfIdf (fst (TfIdf_new docs)) t d)
             = calculateTf t (docs ! nat d) * falsy_or (map_of (idfCache (fst (TfIdf_new docs))) t) 0
         \<and> (t \<notin> \<Union> (set ` set docs) \<longrightarrow> getTfIdf (fst (TfIdf_new docs)) t d = (0, []))"
proof -
  from assms have ne: "docs \<noteq> []" by auto
  from assms have da: "document_at (fst (TfIdf_new docs)) d = Some (docs ! nat d)"
    by (simp add: document_at_def)
  have g: "getTfIdf (fst (TfIdf_new docs)) t d
         = (calculateTf t (docs ! nat d) * falsy_or (map_of (idfCache (fst (TfIdf_new docs))) t) 0, [])"
    by (simp add: getTfIdf_def da Let_def)
  have i: "falsy_or (map_of (idfCache (fst (TfIdf_new docs))) t) 0
         = (if t \<in> \<Union> (set ` set docs)
                 then ln (real (length docs)
                          / (real (length (filter (\<lambda>d. t \<in> set d) docs)) + 1)) + 1
                 else 0)"
    unfolding map_of_idfCache [OF ne] filter_empty_iff_unseen
    by (simp add: falsy_or_def idfValue_def)
  show ?thesis
    unfolding g i calculateTf_eq by simp
qed

theorem getTfIdf_formula_witness:
  "(0::int) \<le> 0 \<and> (0::int) < int (length [[''cat'', ''dog'', ''cat''], [''dog'', ''bird'']])
   \<and> getTfIdf (fst (TfIdf_new [[''cat'', ''dog'', ''cat''], [''dog'', ''bird'']])) ''cat'' 0
       = (2 / 3, [])
   \<and> getTfIdf (fst (TfIdf_new [[''cat'', ''dog'', ''cat''], [''dog'', ''bird'']])) ''fish'' 0
       = (0, [])"
proof -
  have 1: "(0::int) \<le> 0" by simp
  have 2: "(0::int) < int (length [[''cat'', ''dog'', ''cat''], [''dog'', ''bird'']])" by simp
  from getTfIdf_formula [OF 1 2, of "''cat''"] getTfIdf_formula [OF 1 2, of "''fish''"]
  show ?thesis by simp
qed

section \<open>The graph operations\<close>

lemma map_of_addNode:
  "map_of (addNode g n) = (if map_of g n = None then (map_of g)(n \<mapsto> []) else map_of g)"
  by (simp add: addNode_def AList.update_conv')

lemma addNode_present: "map_of (addNode g n) n \<noteq> None"
  by (simp add: map_of_addNode)

lemma getNodes_addNode:
  "getNodes (addNode g n) = (if n \<in> set (getNodes g) then getNodes g else getNodes g @ [n])"
  by (auto simp: addNode_def getNodes_def AList.update_keys map_of_eq_None_iff image_iff)

lemma edgeWeight_addNode [simp]: "edgeWeight (addNode g n) u v = edgeWeight g u v"
  by (simp add: edgeWeight_def getOutNeighbors_def map_of_addNode split: option.splits)



lemma getNodes_addEdge:
  "getNodes (addEdge g a b w) = getNodes (addNode (addNode g a) b)"
proof -
  have "a \<in> set (getNodes (addNode (addNode g a) b))"
    by (auto simp: getNodes_addNode)
  then show ?thesis
    by (simp add: addEdge_def Let_def getNodes_def AList.update_keys)
qed

lemma getNodes_addEdge_present:
  "a \<in> set (getNodes g) \<Longrightarrow> b \<in> set (getNodes g) \<Longrightarrow> getNodes (addEdge g a b w) = getNodes g"
  by (simp add: getNodes_addEdge getNodes_addNode)

section \<open>Edge weights of the co-occurrence graph\<close>









lemma edgeWeight_clear [simp]: "edgeWeight clear u v = None"
  by (simp add: edgeWeight_def getOutNeighbors_def clear_def)

lemma edgeWeight_fold_addNode [simp]:
  "edgeWeight (fold (\<lambda>word g. addNode g word) xs g) u v = edgeWeight g u v"
  by (induction xs arbitrary: g) simp_all


section \<open>The window around a position\<close>






section \<open>The nodes of the co-occurrence graph\<close>

lemma getNodes_fold_addNode:
  "distinct xs \<Longrightarrow> set xs \<inter> set (getNodes g) = {} \<Longrightarrow>
   getNodes (fold (\<lambda>word g. addNode g word) xs g) = getNodes g @ xs"
proof (induction xs arbitrary: g)
  case Nil
  then show ?case by simp
next
  case (Cons x xs)
  from Cons.prems have 1: "getNodes (addNode g x) = getNodes g @ [x]"
    by (simp add: getNodes_addNode)
  with Cons.prems have "set xs \<inter> set (getNodes (addNode g x)) = {}" by auto
  with Cons.prems have
    "getNodes (fold (\<lambda>word g. addNode g word) xs (addNode g x)) = getNodes (addNode g x) @ xs"
    by (intro Cons.IH) simp_all
  with 1 show ?case by simp
qed

lemma set_slice: "set (slice xs a b) \<subseteq> set xs"
proof -
  have "set (take n (drop k xs)) \<subseteq> set xs" for n k
    using set_take_subset [of n "drop k xs"] set_drop_subset [of k xs] by blast
  then show ?thesis by (simp add: slice_def Let_def)
qed

lemma set_windowSlice: "set (windowSlice ws words i) \<subseteq> set words"
  unfolding windowSlice_def Let_def using set_slice [of words] by simp

lemma getNodes_fold_addEdge:
  "a \<in> set (getNodes g) \<Longrightarrow> set ys \<subseteq> set (getNodes g) \<Longrightarrow>
   getNodes (fold (\<lambda>word2 g'. addEdge g' a word2 w) ys g) = getNodes g"
  by (induction ys arbitrary: g) (simp_all add: getNodes_addEdge_present)

lemma getNodes_addWindowEdges:
  "i < length words \<Longrightarrow> set words \<subseteq> set (getNodes g) \<Longrightarrow>
   getNodes (addWindowEdges ws words i g) = getNodes g"
  unfolding addWindowEdges_def Let_def
  using set_windowSlice [of ws words i] by (intro getNodes_fold_addEdge) auto

lemma getNodes_fold_addWindowEdges:
  "set is \<subseteq> {..< length words} \<Longrightarrow> set words \<subseteq> set (getNodes g) \<Longrightarrow>
   getNodes (fold (addWindowEdges ws words) is g) = getNodes g"
  by (induction "is" arbitrary: g) (simp_all add: getNodes_addWindowEdges)

lemma getNodes_clear [simp]: "getNodes clear = []"
  by (simp add: getNodes_def clear_def)

lemma getNodes_buildGraph: "getNodes (buildGraph ws words) = Set_of words"
proof -
  have 0: "getNodes (fold (\<lambda>word g. addNode g word) (Set_of words) clear) = Set_of words"
    using getNodes_fold_addNode [of "Set_of words" clear] by simp
  have "getNodes (buildGraph ws words)
          = getNodes (fold (\<lambda>word g. addNode g word) (Set_of words) clear)"
    unfolding buildGraph_def Let_def
    by (rule getNodes_fold_addWindowEdges) (auto simp: 0)
  with 0 show ?thesis by simp
qed

lemma distinct_buildGraph: "distinct (map fst (buildGraph ws words))"
  using getNodes_buildGraph [of ws words] by (simp add: getNodes_def)




section \<open>The priors of a run\<close>

lemma fold_addPrior:
  "fold (addPrior iw) xs acc
     = (fold (\<lambda>x al. AList.update x (falsy_or (iw x) defaultInitialWeight) al) xs (fst acc),
        snd acc + (\<Sum>x\<leftarrow>xs. falsy_or (iw x) defaultInitialWeight))"
  by (induction xs arbitrary: acc) (simp_all add: addPrior_def Let_def add.assoc)

text \<open>The raw weight of a word, as both branches of \<^verbatim>\<open>run\<close> compute it.\<close>

lemma rawPriors_eq:
  "rawPriors xs iwo
     = (fold (\<lambda>x al. AList.update x
                 (case iwo of None \<Rightarrow> defaultInitialWeight
                  | Some iw \<Rightarrow> falsy_or (iw x) defaultInitialWeight) al) xs [],
        (\<Sum>x\<leftarrow>xs. case iwo of None \<Rightarrow> defaultInitialWeight
                  | Some iw \<Rightarrow> falsy_or (iw x) defaultInitialWeight))"
proof (cases iwo)
  case None
  have "(\<Sum>x\<leftarrow>xs. defaultInitialWeight) = real (length xs)"
    by (induction xs) (simp_all add: defaultInitialWeight_def)
  with None show ?thesis by (simp add: rawPriors_def)
next
  case (Some iw)
  then show ?thesis by (simp add: rawPriors_def fold_addPrior)
qed

lemma fold_normalizePrior_map_of:
  "distinct (map fst es) \<Longrightarrow>
   map_of (fold (normalizePrior t) es p) k
     = (case map_of es k of Some v \<Rightarrow> Some (v / t) | None \<Rightarrow> map_of p k)"
proof (induction es arbitrary: p)
  case Nil
  then show ?case by simp
next
  case (Cons e es)
  obtain k' v where e: "e = (k', v)" by (cases e)
  from Cons.prems e have "map_of es k' = None"
    by (simp add: map_of_eq_None_iff)
  with Cons e show ?case
    by (auto simp: normalizePrior_def AList.update_conv' split: option.splits)
qed

lemma fold_normalizePrior_keys:
  "fst ` set es \<subseteq> fst ` set p \<Longrightarrow> map fst (fold (normalizePrior t) es p) = map fst p"
proof (induction es arbitrary: p)
  case Nil
  then show ?case by simp
next
  case (Cons e es)
  from Cons.prems have k: "map fst (normalizePrior t e p) = map fst p"
    by (auto simp: normalizePrior_def AList.update_keys)
  then have "fst ` set (normalizePrior t e p) = fst ` set p"
    by (metis set_map)
  with Cons.prems have "fst ` set es \<subseteq> fst ` set (normalizePrior t e p)" by simp
  from Cons.IH [OF this] k show ?case by simp
qed

lemma computePriors_keys:
  "distinct xs \<Longrightarrow> map fst (computePriors xs iwo) = xs"
  by (simp add: computePriors_def rawPriors_eq normalizePriors_def
      fold_normalizePrior_keys fold_update_keys)

lemma computePriors_map_of:
  assumes "distinct xs"
  shows "map_of (computePriors xs iwo) w
     = (if w \<in> set xs
        then Some (if 0 < (\<Sum>x\<leftarrow>xs. case iwo of None \<Rightarrow> defaultInitialWeight
                              | Some iw \<Rightarrow> falsy_or (iw x) defaultInitialWeight)
                   then (case iwo of None \<Rightarrow> defaultInitialWeight
                              | Some iw \<Rightarrow> falsy_or (iw w) defaultInitialWeight)
                        / (\<Sum>x\<leftarrow>xs. case iwo of None \<Rightarrow> defaultInitialWeight
                              | Some iw \<Rightarrow> falsy_or (iw x) defaultInitialWeight)
                   else (case iwo of None \<Rightarrow> defaultInitialWeight
                              | Some iw \<Rightarrow> falsy_or (iw w) defaultInitialWeight))
        else None)"
proof -
  let ?raw = "\<lambda>x. case iwo of None \<Rightarrow> defaultInitialWeight
                  | Some iw \<Rightarrow> falsy_or (iw x) defaultInitialWeight"
  let ?p = "fold (\<lambda>x al. AList.update x (?raw x) al) xs []"
  have d: "distinct (map fst ?p)" using assms by (simp add: fold_update_keys)
  have m: "map_of ?p w = (if w \<in> set xs then Some (?raw w) else None)"
    by (simp add: fold_update_map_of)
  show ?thesis
    unfolding computePriors_def rawPriors_eq normalizePriors_def
    by (simp add: fold_normalizePrior_map_of [OF d] m)
qed

lemma map_snd_alist:
  "distinct (map fst al) \<Longrightarrow> map snd al = map (\<lambda>k. the (map_of al k)) (map fst al)"
proof (induction al)
  case Nil
  then show ?case by simp
next
  case (Cons e al)
  obtain k v where e: "e = (k, v)" by (cases e)
  from Cons.prems e have nk: "k \<notin> set (map fst al)" by simp
  have "map (\<lambda>k'. the (map_of (e # al) k')) (map fst al)
          = map (\<lambda>k'. the (map_of al k')) (map fst al)"
    using nk e by (intro map_cong refl) auto
  with Cons e show ?case by simp
qed

lemma sum_list_div: "(\<Sum>x\<leftarrow>xs. f x / (c::real)) = (\<Sum>x\<leftarrow>xs. f x) / c"
  by (induction xs) (simp_all add: add_divide_distrib)

text \<open>
  Claim C1, as the code has it. The raw prior of a node is the weight looked up in the
  supplied mapping, and the default 1 when the node is absent from the mapping, when the
  weight looked up is 0 (\<^verbatim>\<open>initialWeights.get(word) || defaultInitialWeight\<close>), or when
  no mapping is supplied. The priors are stored for the nodes in their order. If the sum
  of the raw priors is positive, every prior is the raw prior divided by that sum, and
  the priors sum to 1; otherwise the division is not carried out and the priors remain
  the raw ones.
\<close>

theorem run_priors:
  fixes tr :: TextRank and words :: "string list" and iwo :: "(string \<rightharpoonup> real) option"
  defines "nodes \<equiv> getNodes (buildGraph (windowSize tr) words)"
    and "raw \<equiv> (\<lambda>w. case iwo of None \<Rightarrow> 1
                      | Some iw \<Rightarrow> (case iw w of None \<Rightarrow> 1 | Some x \<Rightarrow> if x = 0 then 1 else x))"
  shows "map fst (computePriors nodes iwo) = nodes
         \<and> (\<forall>w \<in> set nodes.
               map_of (computePriors nodes iwo) w
                 = Some (if 0 < (\<Sum>x \<in> set nodes. raw x) then raw w / (\<Sum>x \<in> set nodes. raw x)
                         else raw w))
         \<and> (0 < (\<Sum>x \<in> set nodes. raw x) \<longrightarrow> sum_list (map snd (computePriors nodes iwo)) = 1)"
proof -
  have d: "distinct nodes"
    by (simp add: nodes_def getNodes_buildGraph)
  have r: "(case iwo of None \<Rightarrow> defaultInitialWeight
             | Some iw \<Rightarrow> falsy_or (iw x) defaultInitialWeight) = raw x" for x
    by (simp add: raw_def falsy_or_def defaultInitialWeight_def split: option.splits)
  have t: "(\<Sum>x\<leftarrow>nodes. raw x) = (\<Sum>x \<in> set nodes. raw x)"
    using d by (rule sum_list_distinct_conv_sum_set)
  have k: "map fst (computePriors nodes iwo) = nodes"
    using d by (rule computePriors_keys)
  have m: "map_of (computePriors nodes iwo) w
             = (if w \<in> set nodes
                then Some (if 0 < (\<Sum>x \<in> set nodes. raw x)
                           then raw w / (\<Sum>x \<in> set nodes. raw x) else raw w)
                else None)" for w
    unfolding computePriors_map_of [OF d] r t ..
  have s: "sum_list (map snd (computePriors nodes iwo)) = 1" if p: "0 < (\<Sum>x \<in> set nodes. raw x)"
  proof -
    have "map snd (computePriors nodes iwo)
            = map (\<lambda>w. the (map_of (computePriors nodes iwo) w)) nodes"
      using map_snd_alist [of "computePriors nodes iwo"] d k by simp
    also have "\<dots> = map (\<lambda>w. raw w / (\<Sum>x \<in> set nodes. raw x)) nodes"
      using p by (intro map_cong refl) (simp add: m)
    finally have "sum_list (map snd (computePriors nodes iwo))
            = (\<Sum>w\<leftarrow>nodes. raw w) / (\<Sum>x \<in> set nodes. raw x)"
      by (simp add: sum_list_div)
    with p t show ?thesis by simp
  qed
  from k m s show ?thesis by simp
qed

theorem run_priors_witness:
  "map fst (computePriors (getNodes (buildGraph (windowSize (TextRank_new no_options)) [''a'', ''b'']))
                          (Some (map_of [(''a'', 0), (''b'', 3)]))) = [''a'', ''b'']
   \<and> map_of (computePriors (getNodes (buildGraph (windowSize (TextRank_new no_options)) [''a'', ''b'']))
                          (Some (map_of [(''a'', 0), (''b'', 3)]))) ''a'' = Some (1 / 4)
   \<and> map_of (computePriors (getNodes (buildGraph (windowSize (TextRank_new no_options)) [''a'', ''b'']))
                          (Some (map_of [(''a'', 0), (''b'', 3)]))) ''b'' = Some (3 / 4)
   \<and> sum_list (map snd (computePriors (getNodes (buildGraph (windowSize (TextRank_new no_options)) [''a'', ''b'']))
                          (Some (map_of [(''a'', 0), (''b'', 3)])))) = 1"
proof -
  have n: "getNodes (buildGraph (windowSize (TextRank_new no_options)) [''a'', ''b'']) = [''a'', ''b'']"
    by (simp add: getNodes_buildGraph Set_of_def)
  show ?thesis
    using run_priors [of "TextRank_new no_options" "[''a'', ''b'']"
                         "Some (map_of [(''a'', 0), (''b'', 3)])"]
    unfolding n by simp
qed

text \<open>
  The claim as it was stated lets a supplied weight of 0 stand, so that a mapping of zero
  weights leaves zero priors and zero scores. For the single token \<open>a\<close> with the supplied
  weight 0 the code takes the default instead: the prior of \<open>a\<close> is 1, and the run with
  the default configuration ends with the score \<open>0.15\<close>.
\<close>

theorem run_priors_counterexample:
  "map_of [(''a'', 0::real)] ''a'' = Some 0
   \<and> computePriors (getNodes (buildGraph (windowSize (TextRank_new no_options)) [''a'']))
                    (Some (map_of [(''a'', 0)])) = [(''a'', 1)]
   \<and> map_of (computePriors (getNodes (buildGraph (windowSize (TextRank_new no_options)) [''a'']))
                    (Some (map_of [(''a'', 0)]))) ''a'' \<noteq> Some 0
   \<and> scores (run (TextRank_new no_options) [''a''] (Some (map_of [(''a'', 0)]))) = [(''a'', 3 / 20)]
   \<and> scores (run (TextRank_new no_options) [''a''] (Some (map_of [(''a'', 0)]))) \<noteq> [(''a'', 0)]"
proof -
  have 1: "computePriors (getNodes (buildGraph (windowSize (TextRank_new no_options)) [''a'']))
                    (Some (map_of [(''a'', 0)])) = [(''a'', 1)]"
    by code_simp
  have 2: "scores (run (TextRank_new no_options) [''a''] (Some (map_of [(''a'', 0)])))
             = [(''a'', 3 / 20)]"
    by code_simp
  show ?thesis unfolding 1 2 by simp
qed

section \<open>Weights of a built graph are not negative\<close>

lemma set_update_subset: "set (AList.update k v al) \<subseteq> insert (k, v) (set al)"
  by (induction al) auto

lemma nonneg_update:
  assumes "\<forall>e \<in> set al. P (snd e)" and "P v"
  shows "\<forall>e \<in> set (AList.update k v al). P (snd e)"
proof
  fix e assume "e \<in> set (AList.update k v al)"
  with set_update_subset [of k v al] have "e = (k, v) \<or> e \<in> set al" by blast
  with assms show "P (snd e)" by auto
qed

lemma nonneg_addNode:
  assumes "\<forall>e \<in> set g. \<forall>p \<in> set (snd e). 0 \<le> snd p"
  shows "\<forall>e \<in> set (addNode g n). \<forall>p \<in> set (snd e). (0::real) \<le> snd p"
proof (cases "map_of g n = None")
  case True
  have "\<forall>e \<in> set (AList.update n [] g). \<forall>p \<in> set (snd e). (0::real) \<le> snd p"
    using assms by (rule nonneg_update) simp
  with True show ?thesis by (simp add: addNode_def)
next
  case False
  then have "addNode g n = g" by (auto simp: addNode_def)
  with assms show ?thesis by simp
qed

lemma nonneg_addEdge:
  assumes g: "\<forall>e \<in> set g. \<forall>p \<in> set (snd e). 0 \<le> snd p" and w: "0 \<le> w"
  shows "\<forall>e \<in> set (addEdge g a b w). \<forall>p \<in> set (snd e). (0::real) \<le> snd p"
proof -
  let ?g2 = "addNode (addNode g a) b"
  have g2: "\<forall>e \<in> set ?g2. \<forall>p \<in> set (snd e). 0 \<le> snd p"
    using g by (intro nonneg_addNode)
  have "map_of (addNode g a) a \<noteq> None" by (rule addNode_present)
  then have "map_of ?g2 a \<noteq> None" by (simp add: map_of_addNode)
  then obtain adj where adj: "map_of ?g2 a = Some adj" by auto
  then have "(a, adj) \<in> set ?g2" by (rule map_of_SomeD)
  with g2 have "\<forall>p \<in> set (snd (a, adj)). 0 \<le> snd p" by (rule bspec)
  then have nadj: "\<forall>p \<in> set adj. 0 \<le> snd p" by simp
  have "0 \<le> falsy_or (map_of adj b) 0"
  proof (cases "map_of adj b")
    case None
    then show ?thesis by (simp add: falsy_or_def)
  next
    case (Some x)
    then have "(b, x) \<in> set adj" by (rule map_of_SomeD)
    with nadj have "0 \<le> snd (b, x)" by (rule bspec)
    with Some show ?thesis by (simp add: falsy_or_def)
  qed
  with w have "0 \<le> falsy_or (map_of adj b) 0 + w" by simp
  with nadj have n': "\<forall>p \<in> set (AList.update b (falsy_or (map_of adj b) 0 + w) adj). 0 \<le> snd p"
    by (rule nonneg_update)
  have e: "addEdge g a b w
             = AList.update a (AList.update b (falsy_or (map_of adj b) 0 + w) adj) ?g2"
    by (simp add: addEdge_def Let_def adj)
  show ?thesis
    unfolding e using g2 n' by (rule nonneg_update)
qed

lemma nonneg_fold_addEdge:
  "\<forall>e \<in> set g. \<forall>p \<in> set (snd e). 0 \<le> snd p \<Longrightarrow>
   \<forall>e \<in> set (fold (\<lambda>word2 g'. addEdge g' a word2 1) ys g). \<forall>p \<in> set (snd e). (0::real) \<le> snd p"
proof (induction ys arbitrary: g)
  case Nil
  then show ?case by simp
next
  case (Cons y ys)
  from Cons.prems have "\<forall>e \<in> set (addEdge g a y 1). \<forall>p \<in> set (snd e). (0::real) \<le> snd p"
    by (intro nonneg_addEdge) simp_all
  from Cons.IH [OF this] show ?case by simp
qed

lemma nonneg_fold_addWindowEdges:
  "\<forall>e \<in> set g. \<forall>p \<in> set (snd e). 0 \<le> snd p \<Longrightarrow>
   \<forall>e \<in> set (fold (addWindowEdges ws words) is g). \<forall>p \<in> set (snd e). (0::real) \<le> snd p"
proof (induction "is" arbitrary: g)
  case Nil
  then show ?case by simp
next
  case (Cons i "is")
  from Cons.prems
  have "\<forall>e \<in> set (addWindowEdges ws words i g). \<forall>p \<in> set (snd e). (0::real) \<le> snd p"
    unfolding addWindowEdges_def Let_def by (rule nonneg_fold_addEdge)
  from Cons.IH [OF this] show ?case by simp
qed

lemma nonneg_fold_addNode:
  "\<forall>e \<in> set g. \<forall>p \<in> set (snd e). 0 \<le> snd p \<Longrightarrow>
   \<forall>e \<in> set (fold (\<lambda>word g. addNode g word) xs g). \<forall>p \<in> set (snd e). (0::real) \<le> snd p"
proof (induction xs arbitrary: g)
  case Nil
  then show ?case by simp
next
  case (Cons x xs)
  from Cons.prems have "\<forall>e \<in> set (addNode g x). \<forall>p \<in> set (snd e). (0::real) \<le> snd p"
    by (rule nonneg_addNode)
  from Cons.IH [OF this] show ?case by simp
qed

lemma nonneg_buildGraph:
  "\<forall>e \<in> set (buildGraph ws words). \<forall>p \<in> set (snd e). (0::real) \<le> snd p"
  unfolding buildGraph_def Let_def
  by (intro nonneg_fold_addWindowEdges nonneg_fold_addNode) (simp add: clear_def)

lemma fold_plus_sum_list: "fold (\<lambda>w sum. sum + w) xs (s::real) = s + sum_list xs"
  by (induction xs arbitrary: s) simp_all

lemma getTotalOutWeight_buildGraph_nonneg: "0 \<le> getTotalOutWeight (buildGraph ws words) u"
proof (cases "map_of (buildGraph ws words) u")
  case None
  then show ?thesis by (simp add: getTotalOutWeight_def getOutNeighbors_def)
next
  case (Some adj)
  then have "(u, adj) \<in> set (buildGraph ws words)" by (rule map_of_SomeD)
  with nonneg_buildGraph [of ws words] have "\<forall>p \<in> set (snd (u, adj)). 0 \<le> snd p"
    by (rule bspec)
  then have "\<forall>p \<in> set adj. 0 \<le> snd p" by simp
  then have "0 \<le> sum_list (map snd adj)" by (intro sum_list_nonneg) auto
  with Some show ?thesis
    by (simp add: getTotalOutWeight_def getOutNeighbors_def fold_plus_sum_list)
qed

section \<open>One pass of the ranking loop\<close>

lemma alist_eq_map_keys:
  "distinct (map fst al) \<Longrightarrow> al = map (\<lambda>k. (k, the (map_of al k))) (map fst al)"
proof (induction al)
  case Nil
  then show ?case by simp
next
  case (Cons e al)
  obtain k v where e: "e = (k, v)" by (cases e)
  from Cons.prems e have nk: "k \<notin> set (map fst al)" by simp
  have "map (\<lambda>k'. (k', the (map_of (e # al) k'))) (map fst al)
          = map (\<lambda>k'. (k', the (map_of al k'))) (map fst al)"
    using nk e by (intro map_cong refl) auto
  with Cons e show ?case by simp
qed

lemma collectIn_map_of:
  "map_of (collectIn w e acc) u
     = (if u = fst e \<and> map_of (snd e) w \<noteq> None then map_of (snd e) w else map_of acc u)"
  by (auto simp: collectIn_def AList.update_conv' split: option.splits)

lemma collectIn_distinct:
  "distinct (map fst acc) \<Longrightarrow> distinct (map fst (collectIn w e acc))"
  by (simp add: collectIn_def AList.distinct_update split: option.splits)

lemma fold_collectIn_distinct:
  "distinct (map fst acc) \<Longrightarrow> distinct (map fst (fold (collectIn w) es acc))"
  by (induction es arbitrary: acc) (simp_all add: collectIn_distinct)

lemma fold_collectIn_map_of:
  "distinct (map fst es) \<Longrightarrow>
   map_of (fold (collectIn w) es acc) u
     = (case map_of es u of
          Some adj \<Rightarrow> (case map_of adj w of Some x \<Rightarrow> Some x | None \<Rightarrow> map_of acc u)
        | None \<Rightarrow> map_of acc u)"
proof (induction es arbitrary: acc)
  case Nil
  then show ?case by simp
next
  case (Cons e es)
  obtain k adj where e: "e = (k, adj)" by (cases e)
  from Cons.prems e have "map_of es k = None"
    by (simp add: map_of_eq_None_iff)
  with Cons e show ?case
    by (auto simp: collectIn_map_of split: option.splits)
qed

lemma getInNeighbors_map_of:
  "distinct (map fst g) \<Longrightarrow> map_of (getInNeighbors g w) u = edgeWeight g u w"
  by (simp add: getInNeighbors_def fold_collectIn_map_of edgeWeight_def getOutNeighbors_def
      split: option.splits)

lemma getInNeighbors_distinct: "distinct (map fst (getInNeighbors g w))"
  by (simp add: getInNeighbors_def fold_collectIn_distinct)

lemma fold_addInbound:
  "fold (addInbound g old) es acc
     = acc + (\<Sum>e\<leftarrow>es. if 0 < getTotalOutWeight g (fst e)
                        then (snd e / getTotalOutWeight g (fst e))
                               * falsy_or (map_of old (fst e)) 0
                        else 0)"
  by (induction es arbitrary: acc) (simp_all add: addInbound_def Let_def)

lemma inboundWeightSum_eq:
  assumes "distinct (map fst g)"
  shows "inboundWeightSum g old w
           = (\<Sum>u \<in> {u. edgeWeight g u w \<noteq> None \<and> 0 < getTotalOutWeight g u}.
                (the (edgeWeight g u w) / getTotalOutWeight g u) * falsy_or (map_of old u) 0)"
proof -
  let ?al = "getInNeighbors g w"
  let ?c = "\<lambda>e. if 0 < getTotalOutWeight g (fst e)
                 then (snd e / getTotalOutWeight g (fst e)) * falsy_or (map_of old (fst e)) 0
                 else 0"
  have d: "distinct (map fst ?al)" by (rule getInNeighbors_distinct)
  have m: "map_of ?al u = edgeWeight g u w" for u
    using assms by (rule getInNeighbors_map_of)
  have k: "set (map fst ?al) = {u. edgeWeight g u w \<noteq> None}"
    by (simp add: dom_map_of_conv_image_fst [symmetric] dom_def m)
  have "inboundWeightSum g old w = sum_list (map ?c ?al)"
    by (simp add: inboundWeightSum_def fold_addInbound)
  also have "\<dots> = sum_list (map ?c (map (\<lambda>u. (u, the (map_of ?al u))) (map fst ?al)))"
    using alist_eq_map_keys [OF d] by simp
  also have "\<dots> = sum_list (map (\<lambda>u. ?c (u, the (edgeWeight g u w))) (map fst ?al))"
    by (simp add: comp_def m)
  also have "\<dots> = (\<Sum>u \<in> set (map fst ?al). ?c (u, the (edgeWeight g u w)))"
    using d by (rule sum_list_distinct_conv_sum_set)
  also have "\<dots> = (\<Sum>u \<in> {u. edgeWeight g u w \<noteq> None}. ?c (u, the (edgeWeight g u w)))"
    unfolding k ..
  also have "\<dots> = (\<Sum>u \<in> {u \<in> {u. edgeWeight g u w \<noteq> None}. 0 < getTotalOutWeight g u}.
                (the (edgeWeight g u w) / getTotalOutWeight g u) * falsy_or (map_of old u) 0)"
  proof -
    have "finite {u. edgeWeight g u w \<noteq> None}" unfolding k [symmetric] by simp
    then have "(\<Sum>u \<in> {u \<in> {u. edgeWeight g u w \<noteq> None}. 0 < getTotalOutWeight g u}.
                (the (edgeWeight g u w) / getTotalOutWeight g u) * falsy_or (map_of old u) 0)
          = (\<Sum>u \<in> {u. edgeWeight g u w \<noteq> None}.
                if 0 < getTotalOutWeight g u
                then (the (edgeWeight g u w) / getTotalOutWeight g u) * falsy_or (map_of old u) 0
                else 0)"
      by (rule sum.inter_filter)
    then show ?thesis by (simp only: fst_conv snd_conv)
  qed
  finally show ?thesis by simp
qed

lemma fold_rankNode:
  "fold (rankNode d g priors old) xs acc
     = (fold (\<lambda>x al. AList.update x
                ((1 - d) * falsy_or (map_of priors x) 0 + d * inboundWeightSum g old x) al)
             xs (fst acc),
        fold (\<lambda>x m. max m \<bar>(1 - d) * falsy_or (map_of priors x) 0
                             + d * inboundWeightSum g old x - falsy_or (map_of old x) 0\<bar>)
             xs (snd acc))"
  by (induction xs arbitrary: acc) (simp_all add: rankNode_def Let_def AList.update_conv')

lemma fold_max_eq_Max:
  "fold (\<lambda>x m. max m (h x)) xs (m0::real) = Max (insert m0 (h ` set xs))"
proof (induction xs arbitrary: m0)
  case Nil
  then show ?case by simp
next
  case (Cons x xs)
  have "Max (insert (max m0 (h x)) (h ` set xs)) = Max (insert m0 (insert (h x) (h ` set xs)))"
  proof (cases "xs = []")
    case True
    then show ?thesis by simp
  next
    case False
    then have "h ` set xs \<noteq> {}" by simp
    then show ?thesis by (simp add: max.assoc)
  qed
  with Cons show ?case by simp
qed

lemma rankPass_map_of:
  "map_of (fst (rankPass d g priors old)) w
     = (if w \<in> set (getNodes g)
        then Some ((1 - d) * falsy_or (map_of priors w) 0 + d * inboundWeightSum g old w)
        else None)"
  by (simp add: rankPass_def fold_rankNode fold_update_map_of)

lemma rankPass_keys:
  "distinct (map fst g) \<Longrightarrow> map fst (fst (rankPass d g priors old)) = getNodes g"
  by (simp add: rankPass_def fold_rankNode fold_update_keys getNodes_def)

lemma rankPass_max_diff:
  "snd (rankPass d g priors old)
     = Max (insert 0 ((\<lambda>w. \<bar>the (map_of (fst (rankPass d g priors old)) w)
                              - falsy_or (map_of old w) 0\<bar>) ` set (getNodes g)))"
proof -
  have "(\<lambda>w. \<bar>the (map_of (fst (rankPass d g priors old)) w) - falsy_or (map_of old w) 0\<bar>)
          ` set (getNodes g)
        = (\<lambda>w. \<bar>(1 - d) * falsy_or (map_of priors w) 0 + d * inboundWeightSum g old w
                  - falsy_or (map_of old w) 0\<bar>) ` set (getNodes g)"
    by (intro image_cong refl) (simp add: rankPass_map_of)
  then show ?thesis
    by (simp add: rankPass_def fold_rankNode fold_max_eq_Max)
qed

text \<open>
  Claim C2. One pass of the ranking loop of \<^verbatim>\<open>run\<close>, on the graph \<open>g\<close> that the run has
  built, stores for every node \<open>w\<close>, in the order of the nodes, the score
  \<open>(1 - damping) * prior w + damping * (\<Sum>u. (edgeWeight u w / totalOutWeight u) * oldScore u)\<close>.
  The sum ranges over the nodes \<open>u\<close> that have an edge to \<open>w\<close> and whose total outgoing
  weight is not 0; a predecessor with total outgoing weight 0 adds nothing. Every old
  score is read from \<open>old\<close>, the scores as they were before the pass, and never from the
  scores that the pass is writing; a missing prior or old score counts as 0.
\<close>

theorem rankPass_formula:
  fixes tr :: TextRank and words :: "string list" and iw :: "(string \<rightharpoonup> real) option"
    and priors old :: "(string \<times> real) list"
  defines "g \<equiv> graph (run tr words iw)"
  shows "map fst (fst (rankPass (damping tr) g priors old)) = getNodes g
         \<and> (\<forall>w \<in> set (getNodes g).
               map_of (fst (rankPass (damping tr) g priors old)) w
                 = Some ((1 - damping tr) * falsy_or (map_of priors w) 0
                         + damping tr
                           * (\<Sum>u \<in> {u. edgeWeight g u w \<noteq> None \<and> getTotalOutWeight g u \<noteq> 0}.
                                (the (edgeWeight g u w) / getTotalOutWeight g u)
                                  * falsy_or (map_of old u) 0)))"
proof -
  have g: "g = buildGraph (windowSize tr) words"
    by (simp add: g_def graph_run)
  have d: "distinct (map fst g)"
    unfolding g by (rule distinct_buildGraph)
  have "(0 < getTotalOutWeight g u) = (getTotalOutWeight g u \<noteq> 0)" for u
    using getTotalOutWeight_buildGraph_nonneg [of "windowSize tr" words u]
    unfolding g by auto
  then have s: "inboundWeightSum g old w
           = (\<Sum>u \<in> {u. edgeWeight g u w \<noteq> None \<and> getTotalOutWeight g u \<noteq> 0}.
                (the (edgeWeight g u w) / getTotalOutWeight g u) * falsy_or (map_of old u) 0)"
    for w
    unfolding inboundWeightSum_eq [OF d] by simp
  show ?thesis
    using rankPass_keys [OF d] by (simp add: rankPass_map_of s)
qed

theorem rankPass_formula_witness:
  "''a'' \<in> set (getNodes (graph (run (TextRank_new no_options) [''a'', ''b''] None)))
   \<and> map_of (fst (rankPass (damping (TextRank_new no_options))
                    (graph (run (TextRank_new no_options) [''a'', ''b''] None))
                    [(''a'', 1 / 4), (''b'', 3 / 4)] [(''a'', 1 / 2), (''b'', 1 / 2)])) ''a''
       = Some ((1 - damping (TextRank_new no_options))
                 * falsy_or (map_of [(''a'', 1 / 4), (''b'', 3 / 4)] ''a'') 0
               + damping (TextRank_new no_options)
                 * (\<Sum>u \<in> {u. edgeWeight (graph (run (TextRank_new no_options) [''a'', ''b''] None))
                                   u ''a'' \<noteq> None
                              \<and> getTotalOutWeight
                                   (graph (run (TextRank_new no_options) [''a'', ''b''] None)) u \<noteq> 0}.
                      (the (edgeWeight (graph (run (TextRank_new no_options) [''a'', ''b''] None))
                              u ''a'')
                         / getTotalOutWeight
                             (graph (run (TextRank_new no_options) [''a'', ''b''] None)) u)
                        * falsy_or (map_of [(''a'', 1 / 2), (''b'', 1 / 2)] u) 0))
   \<and> map_of (fst (rankPass (damping (TextRank_new no_options))
                    (graph (run (TextRank_new no_options) [''a'', ''b''] None))
                    [(''a'', 1 / 4), (''b'', 3 / 4)] [(''a'', 1 / 2), (''b'', 1 / 2)])) ''a''
       = Some (37 / 80)"
proof -
  have m: "''a'' \<in> set (getNodes (graph (run (TextRank_new no_options) [''a'', ''b''] None)))"
    by (simp add: graph_run getNodes_buildGraph)
  have v: "map_of (fst (rankPass (damping (TextRank_new no_options))
                    (graph (run (TextRank_new no_options) [''a'', ''b''] None))
                    [(''a'', 1 / 4), (''b'', 3 / 4)] [(''a'', 1 / 2), (''b'', 1 / 2)])) ''a''
       = Some (37 / 80)"
    by code_simp
  from rankPass_formula [of "TextRank_new no_options" "[''a'', ''b'']" None
                            "[(''a'', 1 / 4), (''b'', 3 / 4)]" "[(''a'', 1 / 2), (''b'', 1 / 2)]"]
    m v
  show ?thesis by blast
qed

section \<open>The ranking loop\<close>

lemma iterate_passes:
  assumes "iterate tr priors i = (tr', k)"
    and "damping tr = d" and "graph tr = g"
  shows "i \<le> k \<and> int k \<le> max (int i) (maxIter tr)
         \<and> scores tr' = ((\<lambda>s. fst (rankPass d g priors s)) ^^ (k - i)) (scores tr)
         \<and> (\<forall>j. j + 1 < k - i \<longrightarrow>
               \<not> snd (rankPass d g priors (((\<lambda>s. fst (rankPass d g priors s)) ^^ j) (scores tr)))
                   < minDiff tr)
         \<and> (int k < maxIter tr \<longrightarrow>
               i < k \<and> snd (rankPass d g priors
                             (((\<lambda>s. fst (rankPass d g priors s)) ^^ (k - i - 1)) (scores tr)))
                         < minDiff tr)"
  using assms
proof (induction tr priors i arbitrary: tr' k rule: iterate.induct)
  case (1 tr priors iter)
  let ?P = "\<lambda>s. fst (rankPass d g priors s)"
  let ?D = "\<lambda>s. snd (rankPass d g priors s)"
  show ?case
  proof (cases "int iter < maxIter tr")
    case False
    with "1.prems" have "tr' = tr" "k = iter" by (simp_all add: iterate.simps [of tr])
    with False show ?thesis by simp
  next
    case True
    obtain ns md where r: "rankPass (damping tr) (graph tr) priors (scores tr) = (ns, md)"
      by (cases "rankPass (damping tr) (graph tr) priors (scores tr)")
    with "1.prems" have ns: "ns = ?P (scores tr)" and md: "md = ?D (scores tr)" by simp_all
    show ?thesis
    proof (cases "md < minDiff tr")
      case conv: True
      with True r "1.prems" have "tr' = tr\<lparr>scores := ns\<rparr>" "k = iter + 1"
        by (simp_all add: iterate.simps [of tr])
      with True conv ns md show ?thesis by simp
    next
      case nconv: False
      with True r "1.prems"
      have it: "iterate (tr\<lparr>scores := ns\<rparr>) priors (iter + 1) = (tr', k)"
        by (simp add: iterate.simps [of tr])
      have ih: "iter + 1 \<le> k \<and> int k \<le> max (int (iter + 1)) (maxIter tr)
         \<and> scores tr' = (?P ^^ (k - (iter + 1))) ns
         \<and> (\<forall>j. j + 1 < k - (iter + 1) \<longrightarrow> \<not> ?D ((?P ^^ j) ns) < minDiff tr)
         \<and> (int k < maxIter tr \<longrightarrow>
               iter + 1 < k \<and> ?D ((?P ^^ (k - (iter + 1) - 1)) ns) < minDiff tr)"
        using "1.IH" [OF True refl r [symmetric] refl nconv it] "1.prems" by simp
      then have le: "iter + 1 \<le> k" by simp
      then have k: "k - iter = Suc (k - (iter + 1))" by simp
      have sw: "(?P ^^ n) ns = (?P ^^ Suc n) (scores tr)" for n
        unfolding ns using funpow_swap1 [of ?P n "scores tr"] by simp
      have 1: "iter \<le> k" using le by simp
      have 2: "int k \<le> max (int iter) (maxIter tr)" using ih True by auto
      have 3: "scores tr' = (?P ^^ (k - iter)) (scores tr)"
        using ih unfolding k sw by simp
      have 4: "\<not> ?D ((?P ^^ j) (scores tr)) < minDiff tr" if "j + 1 < k - iter" for j
      proof (cases j)
        case 0
        with nconv md show ?thesis by simp
      next
        case (Suc j')
        with that have "j' + 1 < k - (iter + 1)" by simp
        with ih have "\<not> ?D ((?P ^^ j') ns) < minDiff tr" by blast
        with Suc show ?thesis unfolding sw by simp
      qed
      have 5: "iter < k \<and> ?D ((?P ^^ (k - iter - 1)) (scores tr)) < minDiff tr"
        if "int k < maxIter tr"
      proof -
        from that ih have a: "iter + 1 < k" and b: "?D ((?P ^^ (k - (iter + 1) - 1)) ns) < minDiff tr"
          by simp_all
        from a have "k - iter - 1 = Suc (k - (iter + 1) - 1)" by simp
        with a b show ?thesis unfolding sw by simp
      qed
      from 1 2 3 4 5 show ?thesis by blast
    qed
  qed
qed

text \<open>
  Claim C6. \<^verbatim>\<open>run\<close> terminates, and the number \<open>k\<close> of passes it carries out is at most
  \<open>maxIter\<close> (none when \<open>maxIter\<close> is not positive). The scores it leaves are those of
  \<open>k\<close> passes from the initial scores. The maximal change of every pass before the last
  one was not below \<open>minDiff\<close>, and when the run stops before \<open>maxIter\<close> passes, at least
  one pass has been made and the maximal change of the last pass is below \<open>minDiff\<close>:
  the loop stops at the first pass whose change is below \<open>minDiff\<close>. The change of a pass
  is the greatest absolute difference, over the nodes, between the new and the old score
  (0 when there is no node).
\<close>

theorem run_bounded_passes:
  fixes tr :: TextRank and words :: "string list" and iw :: "(string \<rightharpoonup> real) option"
  defines "g \<equiv> buildGraph (windowSize tr) words"
  defines "priors \<equiv> computePriors (getNodes g) iw"
  defines "pass \<equiv> rankPass (damping tr) g priors"
    and "s0 \<equiv> initScores (getNodes g) priors"
    and "k \<equiv> snd (run_counted tr words iw)"
  shows "int k \<le> max 0 (maxIter tr)
         \<and> scores (run tr words iw) = ((\<lambda>s. fst (pass s)) ^^ k) s0
         \<and> (\<forall>j. j + 1 < k \<longrightarrow> \<not> snd (pass (((\<lambda>s. fst (pass s)) ^^ j) s0)) < minDiff tr)
         \<and> (int k < maxIter tr \<longrightarrow>
               0 < k \<and> snd (pass (((\<lambda>s. fst (pass s)) ^^ (k - 1)) s0)) < minDiff tr)
         \<and> (\<forall>s. snd (pass s)
                   = Max (insert 0 ((\<lambda>w. \<bar>the (map_of (fst (pass s)) w) - falsy_or (map_of s w) 0\<bar>)
                                      ` set (getNodes g))))"
proof -
  let ?tr2 = "tr\<lparr>graph := g, scores := s0\<rparr>"
  obtain tr' where it: "iterate ?tr2 priors 0 = (tr', k)"
    unfolding k_def run_counted_def Let_def s0_def priors_def g_def
    by (cases "iterate (tr\<lparr>graph := buildGraph (windowSize tr) words,
          scores := initScores (getNodes (buildGraph (windowSize tr) words))
            (computePriors (getNodes (buildGraph (windowSize tr) words)) iw)\<rparr>)
          (computePriors (getNodes (buildGraph (windowSize tr) words)) iw) 0") simp
  have r: "run tr words iw = tr'"
    using it unfolding run_def run_counted_def Let_def s0_def priors_def g_def by simp
  have m: "snd (pass s)
             = Max (insert 0 ((\<lambda>w. \<bar>the (map_of (fst (pass s)) w) - falsy_or (map_of s w) 0\<bar>)
                                ` set (getNodes g)))" for s
    unfolding pass_def by (rule rankPass_max_diff)
  from iterate_passes [OF it, of "damping tr" g] m
  show ?thesis unfolding r pass_def by simp
qed

theorem run_bounded_passes_witness:
  "snd (run_counted (TextRank_new no_options) [''a''] None) = 2
   \<and> int (snd (run_counted (TextRank_new no_options) [''a''] None))
       \<le> max 0 (maxIter (TextRank_new no_options))
   \<and> int (snd (run_counted (TextRank_new no_options) [''a''] None))
       < maxIter (TextRank_new no_options)
   \<and> \<not> snd (rankPass (damping (TextRank_new no_options))
               (buildGraph (windowSize (TextRank_new no_options)) [''a''])
               (computePriors (getNodes (buildGraph (windowSize (TextRank_new no_options)) [''a''])) None)
               (initScores (getNodes (buildGraph (windowSize (TextRank_new no_options)) [''a'']))
                  (computePriors (getNodes (buildGraph (windowSize (TextRank_new no_options)) [''a'']))
                     None)))
         < minDiff (TextRank_new no_options)
   \<and> snd (rankPass (damping (TextRank_new no_options))
               (buildGraph (windowSize (TextRank_new no_options)) [''a''])
               (computePriors (getNodes (buildGraph (windowSize (TextRank_new no_options)) [''a''])) None)
               (fst (rankPass (damping (TextRank_new no_options))
               (buildGraph (windowSize (TextRank_new no_options)) [''a''])
               (computePriors (getNodes (buildGraph (windowSize (TextRank_new no_options)) [''a''])) None)
               (initScores (getNodes (buildGraph (windowSize (TextRank_new no_options)) [''a'']))
                  (computePriors (getNodes (buildGraph (windowSize (TextRank_new no_options)) [''a'']))
                     None)))))
         < minDiff (TextRank_new no_options)"
proof -
  have k: "snd (run_counted (TextRank_new no_options) [''a''] None) = 2"
    by code_simp
  have m: "maxIter (TextRank_new no_options) = 200"
    by (simp add: TextRank_new_def no_options_def falsy_or_def)
  have f1: "(f ^^ (2 - 1)) x = f x" for f :: "'a \<Rightarrow> 'a" and x
    by simp
  note t = run_bounded_passes [of "TextRank_new no_options" "[''a'']" None, unfolded k]
  from t have 1: "int 2 \<le> max 0 (maxIter (TextRank_new no_options))" by blast
  from t have "\<forall>j. j + 1 < (2::nat) \<longrightarrow>
      \<not> snd (rankPass (damping (TextRank_new no_options))
               (buildGraph (windowSize (TextRank_new no_options)) [''a''])
               (computePriors (getNodes (buildGraph (windowSize (TextRank_new no_options)) [''a''])) None)
               (((\<lambda>s. fst (rankPass (damping (TextRank_new no_options))
               (buildGraph (windowSize (TextRank_new no_options)) [''a''])
               (computePriors (getNodes (buildGraph (windowSize (TextRank_new no_options)) [''a''])) None) s)) ^^ j)
               (initScores (getNodes (buildGraph (windowSize (TextRank_new no_options)) [''a'']))
                  (computePriors (getNodes (buildGraph (windowSize (TextRank_new no_options)) [''a'']))
                     None))))
         < minDiff (TextRank_new no_options)"
    by blast
  from this [rule_format, of 0] have 2: "\<not> snd (rankPass (damping (TextRank_new no_options))
               (buildGraph (windowSize (TextRank_new no_options)) [''a''])
               (computePriors (getNodes (buildGraph (windowSize (TextRank_new no_options)) [''a''])) None)
               (initScores (getNodes (buildGraph (windowSize (TextRank_new no_options)) [''a'']))
                  (computePriors (getNodes (buildGraph (windowSize (TextRank_new no_options)) [''a'']))
                     None)))
         < minDiff (TextRank_new no_options)"
    by simp
  have lt: "int 2 < maxIter (TextRank_new no_options)" unfolding m by simp
  from t lt have 3: "snd (rankPass (damping (TextRank_new no_options))
               (buildGraph (windowSize (TextRank_new no_options)) [''a''])
               (computePriors (getNodes (buildGraph (windowSize (TextRank_new no_options)) [''a''])) None)
               (((\<lambda>s. fst (rankPass (damping (TextRank_new no_options))
               (buildGraph (windowSize (TextRank_new no_options)) [''a''])
               (computePriors (getNodes (buildGraph (windowSize (TextRank_new no_options)) [''a''])) None) s)) ^^ (2 - 1))
               (initScores (getNodes (buildGraph (windowSize (TextRank_new no_options)) [''a'']))
                  (computePriors (getNodes (buildGraph (windowSize (TextRank_new no_options)) [''a'']))
                     None))))
         < minDiff (TextRank_new no_options)"
    by blast
  show ?thesis
    unfolding k using 1 2 3 [unfolded f1] lt by simp
qed

section \<open>The object of scores\<close>

lemma Object_entries_Nil [simp]: "Object_entries [] = []"
  by (simp add: Object_entries_def)

lemma set_Object_entries [simp]: "set (Object_entries obj) = set obj"
  by (auto simp: Object_entries_def)



lemma fold_Object_set:
  "fold (\<lambda>t obj. Object_set obj t (f t)) ts obj
     = fold (\<lambda>t al. AList.update t (f t) al) (filter (\<lambda>t. t \<noteq> ''__proto__'') ts) obj"
  by (induction ts arbitrary: obj) (simp_all add: Object_set_def)

section \<open>The orchestrator\<close>


lemma fold_scoreTerm:
  "fold (scoreTerm m i) ts acc
     = (fold (\<lambda>t obj. Object_set obj t (fst (getTfIdf m t i))) ts (fst acc),
        snd acc @ concat (map (\<lambda>t. snd (getTfIdf m t i)) ts))"
  by (induction ts arbitrary: acc) (simp_all add: scoreTerm_def Let_def)

lemma snd_getTfIdf_valid:
  "0 \<le> i \<Longrightarrow> i < int (length (documents m)) \<Longrightarrow> snd (getTfIdf m t i) = []"
  by (simp add: getTfIdf_def document_at_def Let_def)

lemma getDocumentScores_valid:
  assumes "0 \<le> i" and "i < int (length (documents m))"
  shows "getDocumentScores m i
           = (fold (\<lambda>t al. AList.update t (fst (getTfIdf m t i)) al)
                   (filter (\<lambda>t. t \<noteq> ''__proto__'') (Set_of (documents m ! nat i))) [], [])"
proof -
  have "concat (map (\<lambda>t. snd (getTfIdf m t i)) ts) = []" for ts
    using assms by (induction ts) (simp_all add: snd_getTfIdf_valid)
  with assms show ?thesis
    by (simp add: getDocumentScores_def document_at_def fold_scoreTerm fold_Object_set)
qed

lemma getDocumentScores_keys:
  assumes "0 \<le> i" and "i < int (length (documents m))"
  shows "map fst (fst (getDocumentScores m i))
           = filter (\<lambda>t. t \<noteq> ''__proto__'') (Set_of (documents m ! nat i))"
  by (simp add: getDocumentScores_valid [OF assms] fold_update_keys)






lemma Object_entries_example:
  "Object_entries [(''b'', 1::real), (''10'', 2), (''9'', 3), (''07'', 4)]
     = [(''9'', 3), (''10'', 2), (''b'', 1), (''07'', 4)]"
  by (simp add: Object_entries_def isArrayIndex_def isDigit_def decimalValue_def)

lemma getDocumentScores_proto_keys:
  "map fst (fst (getDocumentScores (fst (TfIdf_new [[''__proto__'', ''a''], [''b'']])) 0)) = [''a'']"
  by (simp add: getDocumentScores_keys Set_of_def)





end
